theory Spec2Isabelle
  imports Complex_Main "HOL-Library.Signed_Division" "HOL-Library.Word"
begin

section \<open>The rational value type of \<^verbatim>\<open>src/cpp/fraction.hpp\<close>\<close>

text \<open>
  The header defines \<^verbatim>\<open>holt59::fraction<T>\<close>, a pair of two values of a signed integer
  type \<^verbatim>\<open>T\<close> that every constructor and every mutating operator passes through the
  private routine \<^verbatim>\<open>normalize_()\<close>. It is embedded twice:
  \<^item> over \<^typ>\<open>int\<close>, with exact arithmetic: the reading under which the specification
    states its arithmetic, \<^emph>\<open>the integer domain\<close> without overflow;
  \<^item> over \<^typ>\<open>32 word\<close>, the instance \<^verbatim>\<open>fraction<int>\<close> of the header's own test, where
    the arithmetic wraps around.
  The second refines the first wherever nothing overflows (lemma \<open>normalize32_exact\<close>).
\<close>

section \<open>The header under exact arithmetic\<close>

text \<open>
  Two things of C++ are written out:
  \<^item> \<^verbatim>\<open>/\<close> and \<^verbatim>\<open>%\<close> truncate towards zero (\<open>sdiv\<close> and \<open>smod\<close> of
    \<^verbatim>\<open>HOL-Library.Signed_Division\<close>), where \<open>div\<close> and \<open>mod\<close> of HOL round down;
  \<^item> a division whose divisor is zero has no result in C++ (undefined behaviour, in
    practice a trap), where HOL returns \<open>0\<close>. It is the error value
    \<open>DivisionByZero\<close> here, and every function that may divide returns
    \<open>error + fraction\<close>.
\<close>

subsection \<open>Integer primitives\<close>

datatype error = DivisionByZero

text \<open>\<^verbatim>\<open>a / b\<close> on the integer domain.\<close>

definition cpp_div :: "int \<Rightarrow> int \<Rightarrow> error + int" where
  "cpp_div a b = (if b = 0 then Inl DivisionByZero else Inr (a sdiv b))"

text \<open>
  The \<^verbatim>\<open>gcd\<close> of the header, compiled before C++17:
  \<^verbatim>\<open>return n == 0 ? m : gcd(n, m % n);\<close>
  The remainder is only taken under the guard \<open>n \<noteq> 0\<close>. From C++17 on the header uses
  \<^verbatim>\<open>std::gcd\<close> instead, which is the mathematical \<^const>\<open>gcd\<close> of the absolute values;
  lemma \<open>gcd_cpp_eq_gcd\<close> below shows that both agree on the non-negative arguments
  that \<^verbatim>\<open>normalize_\<close> passes.
\<close>

function gcd_cpp :: "int \<Rightarrow> int \<Rightarrow> int" where
  "gcd_cpp m n = (if n = 0 then m else gcd_cpp n (m smod n))"
  by pat_completeness auto
termination
proof (relation "measure (\<lambda>(m, n). nat \<bar>n\<bar>)")
  show "wf (measure (\<lambda>(m, n). nat \<bar>n\<bar>))"
    by simp
next
  fix m n :: int
  assume "n \<noteq> 0"
  then have "\<bar>m smod n\<bar> < \<bar>n\<bar>"
    using smod_int_range [where a = m and b = n] by auto
  then show "((n, m smod n), (m, n)) \<in> measure (\<lambda>(m, n). nat \<bar>n\<bar>)"
    by simp
qed

declare gcd_cpp.simps [simp del]

subsection \<open>The data and \<^verbatim>\<open>normalize_\<close>\<close>

text \<open>The two private fields \<^verbatim>\<open>num_\<close> and \<^verbatim>\<open>den_\<close>, named as their accessors.\<close>

record fraction =
  num :: int
  den :: int

text \<open>
  \<^verbatim>\<open>normalize_()\<close>:
  \<^verbatim>\<open>
  auto g = gcd(std::abs(num_), std::abs(den_));
  auto m = den_ < 0 ? -1 : 1;
  num_ = num_ / g * m;
  den_ = den_ / g * m;
  return *this;
  \<close>
\<close>

definition fraction_normalize :: "fraction \<Rightarrow> error + fraction" where
  "fraction_normalize f =
     (let g = gcd_cpp \<bar>num f\<bar> \<bar>den f\<bar>;
          m = (if den f < 0 then - 1 else 1)
      in case cpp_div (num f) g of
           Inl e \<Rightarrow> Inl e
         | Inr qn \<Rightarrow>
             (let f1 = f\<lparr>num := qn * m\<rparr>
              in case cpp_div (den f1) g of
                   Inl e \<Rightarrow> Inl e
                 | Inr qd \<Rightarrow> Inr (f1\<lparr>den := qd * m\<rparr>)))"

text \<open>\<^verbatim>\<open>normalize_(num, den)\<close>: stores both fields, then normalizes.\<close>

definition fraction_normalize2 :: "fraction \<Rightarrow> int \<Rightarrow> int \<Rightarrow> error + fraction" where
  "fraction_normalize2 f n d = fraction_normalize (f\<lparr>num := n, den := d\<rparr>)"

subsection \<open>Constructors\<close>

text \<open>\<^verbatim>\<open>fraction(num = 0, den = 1)\<close> with both arguments given.\<close>

definition fraction_ctor :: "int \<Rightarrow> int \<Rightarrow> error + fraction" where
  "fraction_ctor n d = fraction_normalize \<lparr>num = n, den = d\<rparr>"

text \<open>The same constructor with the default denominator, and with both defaults.\<close>

definition fraction_of_value :: "int \<Rightarrow> error + fraction" where
  "fraction_of_value v = fraction_ctor v 1"

definition zero :: "error + fraction" where
  "zero = fraction_ctor 0 1"

subsection \<open>Predicates and conversions\<close>

definition is_integral :: "fraction \<Rightarrow> bool" where
  "is_integral f \<longleftrightarrow> den f = 1"

definition is_legal :: "fraction \<Rightarrow> bool" where
  "is_legal f \<longleftrightarrow> den f \<noteq> 0"

text \<open>\<^verbatim>\<open>operator!\<close> and \<^verbatim>\<open>explicit operator bool\<close>.\<close>

definition operator_not :: "fraction \<Rightarrow> bool" where
  "operator_not f \<longleftrightarrow> num f \<noteq> 0"

definition operator_bool :: "fraction \<Rightarrow> bool" where
  "operator_bool f \<longleftrightarrow> num f = 0"

subsection \<open>Arithmetic\<close>

definition operator_unary_plus :: "fraction \<Rightarrow> fraction" where
  "operator_unary_plus f = f"

definition operator_unary_minus :: "fraction \<Rightarrow> error + fraction" where
  "operator_unary_minus f = fraction_ctor (- num f) (den f)"

text \<open>
  The compound assignments with a \<^verbatim>\<open>fraction\<close> on the right. The arguments of
  \<^verbatim>\<open>normalize_(num, den)\<close> are evaluated from the old fields before any is stored.
\<close>

definition operator_plus_assign :: "fraction \<Rightarrow> fraction \<Rightarrow> error + fraction" where
  "operator_plus_assign f rhs =
     fraction_normalize2 f (num f * den rhs + den f * num rhs) (den f * den rhs)"

definition operator_minus_assign :: "fraction \<Rightarrow> fraction \<Rightarrow> error + fraction" where
  "operator_minus_assign f rhs =
     fraction_normalize2 f (num f * den rhs - den f * num rhs) (den f * den rhs)"

definition operator_times_assign :: "fraction \<Rightarrow> fraction \<Rightarrow> error + fraction" where
  "operator_times_assign f rhs =
     fraction_normalize2 f (num f * num rhs) (den f * den rhs)"

definition operator_divide_assign :: "fraction \<Rightarrow> fraction \<Rightarrow> error + fraction" where
  "operator_divide_assign f rhs =
     fraction_normalize2 f (num f * den rhs) (den f * num rhs)"

text \<open>
  The compound assignments with a \<^verbatim>\<open>value_type\<close> on the right:
  \<^verbatim>\<open>return operator+=(fraction(rhs));\<close>
\<close>

definition operator_plus_assign_value :: "fraction \<Rightarrow> int \<Rightarrow> error + fraction" where
  "operator_plus_assign_value f v =
     (case fraction_of_value v of Inl e \<Rightarrow> Inl e | Inr rhs \<Rightarrow> operator_plus_assign f rhs)"

definition operator_minus_assign_value :: "fraction \<Rightarrow> int \<Rightarrow> error + fraction" where
  "operator_minus_assign_value f v =
     (case fraction_of_value v of Inl e \<Rightarrow> Inl e | Inr rhs \<Rightarrow> operator_minus_assign f rhs)"

definition operator_times_assign_value :: "fraction \<Rightarrow> int \<Rightarrow> error + fraction" where
  "operator_times_assign_value f v =
     (case fraction_of_value v of Inl e \<Rightarrow> Inl e | Inr rhs \<Rightarrow> operator_times_assign f rhs)"

definition operator_divide_assign_value :: "fraction \<Rightarrow> int \<Rightarrow> error + fraction" where
  "operator_divide_assign_value f v =
     (case fraction_of_value v of Inl e \<Rightarrow> Inl e | Inr rhs \<Rightarrow> operator_divide_assign f rhs)"

text \<open>
  The free operators take the left operand by value and return \<^verbatim>\<open>lhs += rhs\<close> (and so
  on); the right operand is a \<^verbatim>\<open>fraction\<close> or a \<^verbatim>\<open>value_type\<close>.
\<close>

definition operator_plus :: "fraction \<Rightarrow> fraction \<Rightarrow> error + fraction" where
  "operator_plus lhs rhs = operator_plus_assign lhs rhs"

definition operator_minus :: "fraction \<Rightarrow> fraction \<Rightarrow> error + fraction" where
  "operator_minus lhs rhs = operator_minus_assign lhs rhs"

definition operator_times :: "fraction \<Rightarrow> fraction \<Rightarrow> error + fraction" where
  "operator_times lhs rhs = operator_times_assign lhs rhs"

definition operator_divide :: "fraction \<Rightarrow> fraction \<Rightarrow> error + fraction" where
  "operator_divide lhs rhs = operator_divide_assign lhs rhs"

definition operator_plus_value :: "fraction \<Rightarrow> int \<Rightarrow> error + fraction" where
  "operator_plus_value lhs v = operator_plus_assign_value lhs v"

definition operator_minus_value :: "fraction \<Rightarrow> int \<Rightarrow> error + fraction" where
  "operator_minus_value lhs v = operator_minus_assign_value lhs v"

definition operator_times_value :: "fraction \<Rightarrow> int \<Rightarrow> error + fraction" where
  "operator_times_value lhs v = operator_times_assign_value lhs v"

definition operator_divide_value :: "fraction \<Rightarrow> int \<Rightarrow> error + fraction" where
  "operator_divide_value lhs v = operator_divide_assign_value lhs v"

subsection \<open>Comparisons\<close>

definition operator_eq :: "fraction \<Rightarrow> fraction \<Rightarrow> bool" where
  "operator_eq lhs rhs \<longleftrightarrow> num lhs = num rhs \<and> den lhs = den rhs"

definition operator_ne :: "fraction \<Rightarrow> fraction \<Rightarrow> bool" where
  "operator_ne lhs rhs \<longleftrightarrow> num lhs \<noteq> num rhs \<or> den lhs \<noteq> den rhs"

definition operator_lt :: "fraction \<Rightarrow> fraction \<Rightarrow> bool" where
  "operator_lt lhs rhs \<longleftrightarrow> num lhs * den rhs < num rhs * den lhs"

definition operator_le :: "fraction \<Rightarrow> fraction \<Rightarrow> bool" where
  "operator_le lhs rhs \<longleftrightarrow> num lhs * den rhs \<le> num rhs * den lhs"

definition operator_gt :: "fraction \<Rightarrow> fraction \<Rightarrow> bool" where
  "operator_gt lhs rhs \<longleftrightarrow> num lhs * den rhs > num rhs * den lhs"

definition operator_ge :: "fraction \<Rightarrow> fraction \<Rightarrow> bool" where
  "operator_ge lhs rhs \<longleftrightarrow> num lhs * den rhs \<ge> num rhs * den lhs"

subsection \<open>The raw pairs of the specification\<close>

text \<open>
  The table of the specification's section on arithmetic, for \<open>a = (n\<^sub>1, d\<^sub>1)\<close> and
  \<open>b = (n\<^sub>2, d\<^sub>2)\<close>, and the lifting of a bare integer \<open>v\<close> to \<open>(v, 1)\<close>. These four
  pairs and the lifting follow the specification's words; the operators above follow
  the header.
\<close>

definition spec_raw_plus :: "fraction \<Rightarrow> fraction \<Rightarrow> fraction" where
  "spec_raw_plus a b = \<lparr>num = num a * den b + den a * num b, den = den a * den b\<rparr>"

definition spec_raw_minus :: "fraction \<Rightarrow> fraction \<Rightarrow> fraction" where
  "spec_raw_minus a b = \<lparr>num = num a * den b - den a * num b, den = den a * den b\<rparr>"

definition spec_raw_times :: "fraction \<Rightarrow> fraction \<Rightarrow> fraction" where
  "spec_raw_times a b = \<lparr>num = num a * num b, den = den a * den b\<rparr>"

definition spec_raw_divide :: "fraction \<Rightarrow> fraction \<Rightarrow> fraction" where
  "spec_raw_divide a b = \<lparr>num = num a * den b, den = den a * num b\<rparr>"

definition spec_lift :: "int \<Rightarrow> fraction" where
  "spec_lift v = \<lparr>num = v, den = 1\<rparr>"

section \<open>The instance \<^verbatim>\<open>fraction<int>\<close> on a 32-bit \<^verbatim>\<open>int\<close>\<close>

text \<open>
  \<^verbatim>\<open>normalize_\<close> calls \<^verbatim>\<open>std::abs\<close> and, from C++17 on, \<^verbatim>\<open>std::gcd\<close>, so the types
  at which the header compiles are the built-in signed integers; its own test uses
  \<^verbatim>\<open>fraction<int>\<close>. This section is that instance, with \<^verbatim>\<open>int\<close> a 32-bit
  two's-complement integer, a \<^typ>\<open>32 word\<close> read by \<^const>\<open>sint\<close>:
  \<^item> \<^verbatim>\<open>+\<close>, \<^verbatim>\<open>-\<close>, \<^verbatim>\<open>*\<close> and unary \<^verbatim>\<open>-\<close> wrap around modulo \<open>2\<^sup>3\<^sup>2\<close>, and so does
    \<^verbatim>\<open>std::abs\<close>: the absolute value of \<open>INT_MIN\<close> is \<open>INT_MIN\<close>;
  \<^item> \<^verbatim>\<open>/\<close> and \<^verbatim>\<open>%\<close> truncate towards zero; a zero divisor is the error
    \<open>DivisionByZero\<close>, and the one quotient that is not representable,
    \<open>INT_MIN / -1\<close>, wraps around to \<open>INT_MIN\<close> like the other operations;
  \<^item> \<^verbatim>\<open><\<close> compares the signed values.
  The parameter \<open>cplusplus\<close> is the value of the macro \<^verbatim>\<open>__cplusplus\<close>, which selects
  the \<^verbatim>\<open>gcd\<close> that \<^verbatim>\<open>normalize_\<close> calls.
\<close>

subsection \<open>Integer primitives\<close>

type_synonym int32 = "32 word"

definition INT_MIN :: int32 where
  "INT_MIN = - (2 ^ 31)"

definition std_abs :: "int32 \<Rightarrow> int32" where
  "std_abs x = (if x <s 0 then - x else x)"

definition cpp_div32 :: "int32 \<Rightarrow> int32 \<Rightarrow> error + int32" where
  "cpp_div32 a b =
     (if b = 0 then Inl DivisionByZero else Inr (word_of_int (sint a sdiv sint b)))"

text \<open>\<^verbatim>\<open>a % b\<close>, which the header only evaluates under the guard \<open>b \<noteq> 0\<close>.\<close>

definition cpp_mod32 :: "int32 \<Rightarrow> int32 \<Rightarrow> int32" where
  "cpp_mod32 a b = word_of_int (sint a smod sint b)"

text \<open>
  The \<^verbatim>\<open>gcd\<close> template of the header, used when \<^verbatim>\<open>__cplusplus <= 201402L\<close>:
  \<^verbatim>\<open>return n == 0 ? m : gcd(n, m % n);\<close>
\<close>

function gcd_cpp32 :: "int32 \<Rightarrow> int32 \<Rightarrow> int32" where
  "gcd_cpp32 m n = (if n = 0 then m else gcd_cpp32 n (cpp_mod32 m n))"
  by pat_completeness auto
termination
proof (relation "measure (\<lambda>(m, n). nat \<bar>sint n\<bar>)")
  show "wf (measure (\<lambda>(m, n). nat \<bar>sint n\<bar>))"
    by simp
next
  fix m n :: int32
  assume "n \<noteq> 0"
  then have n: "sint n \<noteq> 0"
    by (simp add: signed_eq_0_iff)
  have r: "\<bar>sint m smod sint n\<bar> < \<bar>sint n\<bar>"
    using n smod_int_range [where a = "sint m" and b = "sint n"] by auto
  have "\<bar>sint n\<bar> \<le> 2 ^ 31"
    using sint_ge [of n] sint_lt [of n] by simp
  with r have "- (2 ^ 31) \<le> sint m smod sint n" "sint m smod sint n < 2 ^ 31"
    by linarith+
  then have "sint (word_of_int (sint m smod sint n) :: int32) = sint m smod sint n"
    by (simp add: sint_sbintrunc' signed_take_bit_int_eq_self)
  with r show "((n, cpp_mod32 m n), (m, n)) \<in> measure (\<lambda>(m, n). nat \<bar>sint n\<bar>)"
    by (simp add: cpp_mod32_def)
qed

declare gcd_cpp32.simps [simp del]

text \<open>
  Modelled from the spec: \<^verbatim>\<open>std::gcd\<close>, which the header uses from C++17 on, is the
  standard library's and not part of the header. The specification describes the
  GCD utility as returning the greatest common divisor, with \<open>gcd(x, 0) = x\<close>; the
  standard library returns the greatest common divisor of the absolute values of its
  arguments, converted to the arguments' type.
\<close>

definition std_gcd32 :: "int32 \<Rightarrow> int32 \<Rightarrow> int32" where
  "std_gcd32 m n = word_of_int (gcd (sint m) (sint n))"

text \<open>
  \<^verbatim>\<open>#if __cplusplus <= 201402L\<close> \<dots> the template \<dots> \<^verbatim>\<open>#else using std::gcd; #endif\<close>
\<close>

definition gcd32 :: "nat \<Rightarrow> int32 \<Rightarrow> int32 \<Rightarrow> int32" where
  "gcd32 cplusplus m n = (if cplusplus \<le> 201402 then gcd_cpp32 m n else std_gcd32 m n)"

subsection \<open>The data, \<^verbatim>\<open>normalize_\<close> and the constructors\<close>

record fraction32 =
  num32 :: int32
  den32 :: int32

definition normalize32 :: "nat \<Rightarrow> fraction32 \<Rightarrow> error + fraction32" where
  "normalize32 cplusplus f =
     (let g = gcd32 cplusplus (std_abs (num32 f)) (std_abs (den32 f));
          m = (if den32 f <s 0 then - 1 else 1)
      in case cpp_div32 (num32 f) g of
           Inl e \<Rightarrow> Inl e
         | Inr qn \<Rightarrow>
             (let f1 = f\<lparr>num32 := qn * m\<rparr>
              in case cpp_div32 (den32 f1) g of
                   Inl e \<Rightarrow> Inl e
                 | Inr qd \<Rightarrow> Inr (f1\<lparr>den32 := qd * m\<rparr>)))"

definition normalize32_2 :: "nat \<Rightarrow> fraction32 \<Rightarrow> int32 \<Rightarrow> int32 \<Rightarrow> error + fraction32" where
  "normalize32_2 cplusplus f n d = normalize32 cplusplus (f\<lparr>num32 := n, den32 := d\<rparr>)"

definition fraction_ctor32 :: "nat \<Rightarrow> int32 \<Rightarrow> int32 \<Rightarrow> error + fraction32" where
  "fraction_ctor32 cplusplus n d = normalize32 cplusplus \<lparr>num32 = n, den32 = d\<rparr>"

definition fraction_of_value32 :: "nat \<Rightarrow> int32 \<Rightarrow> error + fraction32" where
  "fraction_of_value32 cplusplus v = fraction_ctor32 cplusplus v 1"

definition zero32 :: "nat \<Rightarrow> error + fraction32" where
  "zero32 cplusplus = fraction_ctor32 cplusplus 0 1"

definition is_integral32 :: "fraction32 \<Rightarrow> bool" where
  "is_integral32 f \<longleftrightarrow> den32 f = 1"

definition is_legal32 :: "fraction32 \<Rightarrow> bool" where
  "is_legal32 f \<longleftrightarrow> den32 f \<noteq> 0"

definition operator_not32 :: "fraction32 \<Rightarrow> bool" where
  "operator_not32 f \<longleftrightarrow> num32 f \<noteq> 0"

definition operator_bool32 :: "fraction32 \<Rightarrow> bool" where
  "operator_bool32 f \<longleftrightarrow> num32 f = 0"

subsection \<open>Arithmetic\<close>

definition operator_unary_plus32 :: "fraction32 \<Rightarrow> fraction32" where
  "operator_unary_plus32 f = f"

definition operator_unary_minus32 :: "nat \<Rightarrow> fraction32 \<Rightarrow> error + fraction32" where
  "operator_unary_minus32 cplusplus f = fraction_ctor32 cplusplus (- num32 f) (den32 f)"

definition operator_plus_assign32 :: "nat \<Rightarrow> fraction32 \<Rightarrow> fraction32 \<Rightarrow> error + fraction32" where
  "operator_plus_assign32 cplusplus f rhs =
     normalize32_2 cplusplus f
       (num32 f * den32 rhs + den32 f * num32 rhs) (den32 f * den32 rhs)"

definition operator_minus_assign32 :: "nat \<Rightarrow> fraction32 \<Rightarrow> fraction32 \<Rightarrow> error + fraction32" where
  "operator_minus_assign32 cplusplus f rhs =
     normalize32_2 cplusplus f
       (num32 f * den32 rhs - den32 f * num32 rhs) (den32 f * den32 rhs)"

definition operator_times_assign32 :: "nat \<Rightarrow> fraction32 \<Rightarrow> fraction32 \<Rightarrow> error + fraction32" where
  "operator_times_assign32 cplusplus f rhs =
     normalize32_2 cplusplus f (num32 f * num32 rhs) (den32 f * den32 rhs)"

definition operator_divide_assign32 :: "nat \<Rightarrow> fraction32 \<Rightarrow> fraction32 \<Rightarrow> error + fraction32" where
  "operator_divide_assign32 cplusplus f rhs =
     normalize32_2 cplusplus f (num32 f * den32 rhs) (den32 f * num32 rhs)"

definition operator_plus_assign_value32 :: "nat \<Rightarrow> fraction32 \<Rightarrow> int32 \<Rightarrow> error + fraction32" where
  "operator_plus_assign_value32 cplusplus f v =
     (case fraction_of_value32 cplusplus v of
        Inl e \<Rightarrow> Inl e
      | Inr rhs \<Rightarrow> operator_plus_assign32 cplusplus f rhs)"

definition operator_minus_assign_value32 :: "nat \<Rightarrow> fraction32 \<Rightarrow> int32 \<Rightarrow> error + fraction32" where
  "operator_minus_assign_value32 cplusplus f v =
     (case fraction_of_value32 cplusplus v of
        Inl e \<Rightarrow> Inl e
      | Inr rhs \<Rightarrow> operator_minus_assign32 cplusplus f rhs)"

definition operator_times_assign_value32 :: "nat \<Rightarrow> fraction32 \<Rightarrow> int32 \<Rightarrow> error + fraction32" where
  "operator_times_assign_value32 cplusplus f v =
     (case fraction_of_value32 cplusplus v of
        Inl e \<Rightarrow> Inl e
      | Inr rhs \<Rightarrow> operator_times_assign32 cplusplus f rhs)"

definition operator_divide_assign_value32 :: "nat \<Rightarrow> fraction32 \<Rightarrow> int32 \<Rightarrow> error + fraction32" where
  "operator_divide_assign_value32 cplusplus f v =
     (case fraction_of_value32 cplusplus v of
        Inl e \<Rightarrow> Inl e
      | Inr rhs \<Rightarrow> operator_divide_assign32 cplusplus f rhs)"

definition operator_plus32 :: "nat \<Rightarrow> fraction32 \<Rightarrow> fraction32 \<Rightarrow> error + fraction32" where
  "operator_plus32 cplusplus lhs rhs = operator_plus_assign32 cplusplus lhs rhs"

definition operator_minus32 :: "nat \<Rightarrow> fraction32 \<Rightarrow> fraction32 \<Rightarrow> error + fraction32" where
  "operator_minus32 cplusplus lhs rhs = operator_minus_assign32 cplusplus lhs rhs"

definition operator_times32 :: "nat \<Rightarrow> fraction32 \<Rightarrow> fraction32 \<Rightarrow> error + fraction32" where
  "operator_times32 cplusplus lhs rhs = operator_times_assign32 cplusplus lhs rhs"

definition operator_divide32 :: "nat \<Rightarrow> fraction32 \<Rightarrow> fraction32 \<Rightarrow> error + fraction32" where
  "operator_divide32 cplusplus lhs rhs = operator_divide_assign32 cplusplus lhs rhs"

definition operator_plus_value32 :: "nat \<Rightarrow> fraction32 \<Rightarrow> int32 \<Rightarrow> error + fraction32" where
  "operator_plus_value32 cplusplus lhs v = operator_plus_assign_value32 cplusplus lhs v"

definition operator_minus_value32 :: "nat \<Rightarrow> fraction32 \<Rightarrow> int32 \<Rightarrow> error + fraction32" where
  "operator_minus_value32 cplusplus lhs v = operator_minus_assign_value32 cplusplus lhs v"

definition operator_times_value32 :: "nat \<Rightarrow> fraction32 \<Rightarrow> int32 \<Rightarrow> error + fraction32" where
  "operator_times_value32 cplusplus lhs v = operator_times_assign_value32 cplusplus lhs v"

definition operator_divide_value32 :: "nat \<Rightarrow> fraction32 \<Rightarrow> int32 \<Rightarrow> error + fraction32" where
  "operator_divide_value32 cplusplus lhs v = operator_divide_assign_value32 cplusplus lhs v"

subsection \<open>Comparisons\<close>

definition operator_eq32 :: "fraction32 \<Rightarrow> fraction32 \<Rightarrow> bool" where
  "operator_eq32 lhs rhs \<longleftrightarrow> num32 lhs = num32 rhs \<and> den32 lhs = den32 rhs"

definition operator_ne32 :: "fraction32 \<Rightarrow> fraction32 \<Rightarrow> bool" where
  "operator_ne32 lhs rhs \<longleftrightarrow> num32 lhs \<noteq> num32 rhs \<or> den32 lhs \<noteq> den32 rhs"

definition operator_lt32 :: "fraction32 \<Rightarrow> fraction32 \<Rightarrow> bool" where
  "operator_lt32 lhs rhs \<longleftrightarrow> num32 lhs * den32 rhs <s num32 rhs * den32 lhs"

definition operator_le32 :: "fraction32 \<Rightarrow> fraction32 \<Rightarrow> bool" where
  "operator_le32 lhs rhs \<longleftrightarrow> num32 lhs * den32 rhs \<le>s num32 rhs * den32 lhs"

definition operator_gt32 :: "fraction32 \<Rightarrow> fraction32 \<Rightarrow> bool" where
  "operator_gt32 lhs rhs \<longleftrightarrow> num32 rhs * den32 lhs <s num32 lhs * den32 rhs"

definition operator_ge32 :: "fraction32 \<Rightarrow> fraction32 \<Rightarrow> bool" where
  "operator_ge32 lhs rhs \<longleftrightarrow> num32 rhs * den32 lhs \<le>s num32 lhs * den32 rhs"

subsection \<open>The values a program can hold, and the raw pairs they come from\<close>

text \<open>
  The fields are private, so a \<^verbatim>\<open>fraction<int>\<close> object only ever holds what a
  constructor or an operator has returned, and each of them stores a raw pair and
  normalizes it. \<open>produced32 cplusplus r f\<close> says that \<open>f\<close> is such a value and that
  \<open>r\<close> is the raw pair it was normalized from: the arguments of the constructor, or
  the pair that the operator computed in \<^verbatim>\<open>int\<close> from its operands. The operands
  themselves are any objects.
\<close>

inductive produced32 :: "nat \<Rightarrow> fraction32 \<Rightarrow> fraction32 \<Rightarrow> bool" for cplusplus :: nat where
  by_ctor32:
    "fraction_ctor32 cplusplus n d = Inr f \<Longrightarrow>
     produced32 cplusplus \<lparr>num32 = n, den32 = d\<rparr> f"
| by_of_value32:
    "fraction_of_value32 cplusplus v = Inr f \<Longrightarrow>
     produced32 cplusplus \<lparr>num32 = v, den32 = 1\<rparr> f"
| by_zero32:
    "zero32 cplusplus = Inr f \<Longrightarrow>
     produced32 cplusplus \<lparr>num32 = 0, den32 = 1\<rparr> f"
| by_unary_plus32:
    "produced32 cplusplus r a \<Longrightarrow>
     produced32 cplusplus r (operator_unary_plus32 a)"
| by_unary_minus32:
    "operator_unary_minus32 cplusplus a = Inr f \<Longrightarrow>
     produced32 cplusplus \<lparr>num32 = - num32 a, den32 = den32 a\<rparr> f"
| by_plus_assign32:
    "operator_plus_assign32 cplusplus a b = Inr f \<Longrightarrow>
     produced32 cplusplus
       \<lparr>num32 = num32 a * den32 b + den32 a * num32 b, den32 = den32 a * den32 b\<rparr> f"
| by_minus_assign32:
    "operator_minus_assign32 cplusplus a b = Inr f \<Longrightarrow>
     produced32 cplusplus
       \<lparr>num32 = num32 a * den32 b - den32 a * num32 b, den32 = den32 a * den32 b\<rparr> f"
| by_times_assign32:
    "operator_times_assign32 cplusplus a b = Inr f \<Longrightarrow>
     produced32 cplusplus \<lparr>num32 = num32 a * num32 b, den32 = den32 a * den32 b\<rparr> f"
| by_divide_assign32:
    "operator_divide_assign32 cplusplus a b = Inr f \<Longrightarrow>
     produced32 cplusplus \<lparr>num32 = num32 a * den32 b, den32 = den32 a * num32 b\<rparr> f"
| by_plus_assign_value32:
    "operator_plus_assign_value32 cplusplus a v = Inr f \<Longrightarrow>
     produced32 cplusplus \<lparr>num32 = num32 a * 1 + den32 a * v, den32 = den32 a * 1\<rparr> f"
| by_minus_assign_value32:
    "operator_minus_assign_value32 cplusplus a v = Inr f \<Longrightarrow>
     produced32 cplusplus \<lparr>num32 = num32 a * 1 - den32 a * v, den32 = den32 a * 1\<rparr> f"
| by_times_assign_value32:
    "operator_times_assign_value32 cplusplus a v = Inr f \<Longrightarrow>
     produced32 cplusplus \<lparr>num32 = num32 a * v, den32 = den32 a * 1\<rparr> f"
| by_divide_assign_value32:
    "operator_divide_assign_value32 cplusplus a v = Inr f \<Longrightarrow>
     produced32 cplusplus \<lparr>num32 = num32 a * 1, den32 = den32 a * v\<rparr> f"
| by_plus32:
    "operator_plus32 cplusplus a b = Inr f \<Longrightarrow>
     produced32 cplusplus
       \<lparr>num32 = num32 a * den32 b + den32 a * num32 b, den32 = den32 a * den32 b\<rparr> f"
| by_minus32:
    "operator_minus32 cplusplus a b = Inr f \<Longrightarrow>
     produced32 cplusplus
       \<lparr>num32 = num32 a * den32 b - den32 a * num32 b, den32 = den32 a * den32 b\<rparr> f"
| by_times32:
    "operator_times32 cplusplus a b = Inr f \<Longrightarrow>
     produced32 cplusplus \<lparr>num32 = num32 a * num32 b, den32 = den32 a * den32 b\<rparr> f"
| by_divide32:
    "operator_divide32 cplusplus a b = Inr f \<Longrightarrow>
     produced32 cplusplus \<lparr>num32 = num32 a * den32 b, den32 = den32 a * num32 b\<rparr> f"
| by_plus_value32:
    "operator_plus_value32 cplusplus a v = Inr f \<Longrightarrow>
     produced32 cplusplus \<lparr>num32 = num32 a * 1 + den32 a * v, den32 = den32 a * 1\<rparr> f"
| by_minus_value32:
    "operator_minus_value32 cplusplus a v = Inr f \<Longrightarrow>
     produced32 cplusplus \<lparr>num32 = num32 a * 1 - den32 a * v, den32 = den32 a * 1\<rparr> f"
| by_times_value32:
    "operator_times_value32 cplusplus a v = Inr f \<Longrightarrow>
     produced32 cplusplus \<lparr>num32 = num32 a * v, den32 = den32 a * 1\<rparr> f"
| by_divide_value32:
    "operator_divide_value32 cplusplus a v = Inr f \<Longrightarrow>
     produced32 cplusplus \<lparr>num32 = num32 a * 1, den32 = den32 a * v\<rparr> f"

text \<open>
  A mathematical integer that the 32-bit \<^verbatim>\<open>int\<close> represents, and one whose absolute
  value it represents as well (every value but \<open>INT_MIN\<close>).
\<close>

definition int32_range :: "int \<Rightarrow> bool" where
  "int32_range k \<longleftrightarrow> - (2 ^ 31) \<le> k \<and> k < 2 ^ 31"

definition int32_abs_range :: "int \<Rightarrow> bool" where
  "int32_abs_range k \<longleftrightarrow> - (2 ^ 31) < k \<and> k < 2 ^ 31"

section \<open>Properties under exact arithmetic\<close>

subsection \<open>The integer primitives\<close>

lemma gcd_cpp_0: "gcd_cpp m 0 = m"
  by (subst gcd_cpp.simps) simp

lemma gcd_cpp_rec: "n \<noteq> 0 \<Longrightarrow> gcd_cpp m n = gcd_cpp n (m smod n)"
  by (subst gcd_cpp.simps) simp

lemma gcd_cpp_eq_gcd: "0 \<le> m \<Longrightarrow> 0 \<le> n \<Longrightarrow> gcd_cpp m n = gcd m n"
proof (induction m n rule: gcd_cpp.induct)
  case (1 m n)
  show ?case
  proof (cases "n = 0")
    case True
    with "1.prems" show ?thesis by (simp add: gcd_cpp_0)
  next
    case False
    with "1.prems" have pos: "0 < n" by simp
    have sm: "m smod n = m mod n"
      using "1.prems" pos by (simp add: signed_modulo_int_def sgn_if)
    have "0 \<le> m mod n" using pos by simp
    with "1.IH" [OF False] "1.prems" sm have "gcd_cpp n (m smod n) = gcd n (m mod n)"
      by simp
    also have "\<dots> = gcd m n"
      by (metis gcd_red_int)
    finally show ?thesis using False by (simp add: gcd_cpp_rec)
  qed
qed

lemma gcd_cpp_abs: "gcd_cpp \<bar>n\<bar> \<bar>d\<bar> = gcd n d"
  by (simp add: gcd_cpp_eq_gcd)

lemma sdiv_exact: "g dvd a \<Longrightarrow> a sdiv g = a div (g::int)"
  by (simp add: signed_divide_int_eq_divide_int)

lemma cpp_div_gcd_num:
  "n \<noteq> 0 \<or> d \<noteq> 0 \<Longrightarrow> cpp_div n (gcd n d) = Inr (n div gcd n d)"
  by (auto simp add: cpp_div_def sdiv_exact)

lemma cpp_div_gcd_den:
  "n \<noteq> 0 \<or> d \<noteq> 0 \<Longrightarrow> cpp_div d (gcd n d) = Inr (d div gcd n d)"
  by (auto simp add: cpp_div_def sdiv_exact)

lemma fraction_normalize_zero_zero:
  "num f = 0 \<Longrightarrow> den f = 0 \<Longrightarrow> fraction_normalize f = Inl DivisionByZero"
  by (simp add: fraction_normalize_def gcd_cpp_0 cpp_div_def)

lemma fraction_normalize_nonzero:
  assumes "num f \<noteq> 0 \<or> den f \<noteq> 0"
  shows "fraction_normalize f =
    Inr (f\<lparr>num := num f div gcd (num f) (den f) * (if den f < 0 then - 1 else 1),
           den := den f div gcd (num f) (den f) * (if den f < 0 then - 1 else 1)\<rparr>)"
  using assms
  by (simp add: fraction_normalize_def Let_def gcd_cpp_abs cpp_div_gcd_num cpp_div_gcd_den)

lemma den_div_gcd_sign:
  assumes "(d::int) \<noteq> 0"
  shows "0 < d div gcd n d * (if d < 0 then - 1 else 1)"
proof -
  let ?g = "gcd n d"
  have g: "0 < ?g" using assms by (simp add: gcd_pos_int)
  have "?g dvd d" by simp
  then obtain k where k: "d = ?g * k" unfolding dvd_def by blast
  have q: "d div ?g = k" using g k by (metis nonzero_mult_div_cancel_left less_irrefl)
  show ?thesis
  proof (cases "d < 0")
    case True
    with k g have "k < 0" by (metis mult_less_0_iff not_less_iff_gr_or_eq)
    with True q show ?thesis by simp
  next
    case False
    with assms have "0 < d" by simp
    with k g have "0 < k" by (metis zero_less_mult_pos)
    with False q show ?thesis by simp
  qed
qed

lemma coprime_div_gcd_sign:
  assumes "(n::int) \<noteq> 0 \<or> d \<noteq> 0"
  shows "coprime (n div gcd n d * (if d < 0 then - 1 else 1))
                 (d div gcd n d * (if d < 0 then - 1 else 1))"
proof -
  have "coprime (n div gcd n d) (d div gcd n d)"
    using assms by (intro div_gcd_coprime) 
  then show ?thesis by simp
qed

lemma canonical_unique:
  fixes p q p' q' :: int
  assumes "0 < q" "0 < q'" "coprime p q" "coprime p' q'" "p * q' = p' * q"
  shows "p = p' \<and> q = q'"
proof -
  have "q dvd p * q'" using assms(5) by simp
  with assms(3) have 1: "q dvd q'"
    by (metis coprime_commute coprime_dvd_mult_right_iff)
  have "q' dvd p' * q" using assms(5) [symmetric] by simp
  with assms(4) have 2: "q' dvd q"
    by (metis coprime_commute coprime_dvd_mult_right_iff)
  from 1 2 assms(1,2) have "q = q'"
    by (metis zdvd_antisym_nonneg less_imp_le)
  with assms show ?thesis by simp
qed

subsection \<open>\<^verbatim>\<open>normalize_\<close>\<close>

lemma div_abs_self: "(a::int) \<noteq> 0 \<Longrightarrow> a div \<bar>a\<bar> = sgn a"
proof -
  assume a: "a \<noteq> 0"
  have "a = sgn a * \<bar>a\<bar>" by (simp add: sgn_mult_abs)
  then show ?thesis using a by (metis nonzero_mult_div_cancel_right abs_eq_0)
qed

lemma fraction_normalize_legal:
  assumes "den r \<noteq> 0"
  shows "\<exists>f. fraction_normalize r = Inr f \<and> 0 < den f \<and> coprime (num f) (den f) \<and>
    num f * den r = num r * den f \<and> (num r = 0 \<longrightarrow> den f = 1)"
proof -
  let ?g = "gcd (num r) (den r)"
  let ?s = "if den r < 0 then - 1 else 1 :: int"
  let ?f = "r\<lparr>num := num r div ?g * ?s, den := den r div ?g * ?s\<rparr>"
  have nz: "num r \<noteq> 0 \<or> den r \<noteq> 0" using assms by simp
  have 1: "fraction_normalize r = Inr ?f"
    by (rule fraction_normalize_nonzero [OF nz])
  have 2: "0 < den ?f"
    using den_div_gcd_sign [OF assms, of "num r"] by simp
  have 3: "coprime (num ?f) (den ?f)"
    using coprime_div_gcd_sign [OF nz] by simp
  have "num r div ?g * den r = num r * (den r div ?g)"
    by (metis dvd_div_mult gcd_dvd1 gcd_dvd2 mult.commute)
  then have 4: "num ?f * den r = num r * den ?f"
    by simp
  have 5: "den ?f = 1" if "num r = 0"
  proof -
    have "den r div \<bar>den r\<bar> = sgn (den r)" using assms by (rule div_abs_self)
    with that assms show ?thesis by (simp add: sgn_if)
  qed
  from 1 2 3 4 5 show ?thesis by blast
qed

lemma fraction_normalize_illegal:
  assumes "den r = 0" "num r \<noteq> 0"
  shows "fraction_normalize r = Inr (r\<lparr>num := sgn (num r), den := 0\<rparr>)"
proof -
  have "num r div \<bar>num r\<bar> = sgn (num r)"
    using assms(2) by (rule div_abs_self)
  then show ?thesis
    using assms by (simp add: fraction_normalize_nonzero)
qed

lemma fraction_normalize_Inr_legal:
  assumes "fraction_normalize r = Inr f" "is_legal f"
  shows "den r \<noteq> 0"
proof
  assume d: "den r = 0"
  show False
  proof (cases "num r = 0")
    case True
    with d assms(1) show False by (simp add: fraction_normalize_zero_zero)
  next
    case False
    with d have "fraction_normalize r = Inr (r\<lparr>num := sgn (num r), den := 0\<rparr>)"
      by (simp add: fraction_normalize_illegal)
    with assms(1) have "den f = 0" by auto
    with assms(2) show False by (simp add: is_legal_def)
  qed
qed

lemma fraction_of_value_eq: "fraction_of_value v = Inr \<lparr>num = v, den = 1\<rparr>"
  by (simp add: fraction_of_value_def fraction_ctor_def fraction_normalize_nonzero)

lemmas operator_defs =
  operator_plus_assign_def operator_minus_assign_def operator_times_assign_def
  operator_divide_assign_def
  operator_plus_assign_value_def operator_minus_assign_value_def
  operator_times_assign_value_def operator_divide_assign_value_def
  operator_plus_def operator_minus_def operator_times_def operator_divide_def
  operator_plus_value_def operator_minus_value_def operator_times_value_def
  operator_divide_value_def

lemma fraction_update_all: "(a::fraction)\<lparr>num := n, den := d\<rparr> = \<lparr>num = n, den = d\<rparr>"
  by simp

section \<open>Properties of the 32-bit instance\<close>

subsection \<open>Signed values and the integer primitives\<close>

lemma sint_int32_range: "int32_range (sint (x :: int32))"
  using sint_ge [of x] sint_lt [of x] by (simp add: int32_range_def)

lemma sint_word_of_int32:
  "int32_range k \<Longrightarrow> sint (word_of_int k :: int32) = k"
  by (simp add: int32_range_def sint_sbintrunc' signed_take_bit_int_eq_self)

lemma int32_abs_rangeD: "int32_abs_range k \<Longrightarrow> int32_range k"
  by (simp add: int32_range_def int32_abs_range_def)

lemma sint_INT_MIN: "sint INT_MIN = - (2 ^ 31)"
  by (simp add: INT_MIN_def)

lemma not_INT_MIN_iff: "x \<noteq> INT_MIN \<longleftrightarrow> int32_abs_range (sint x)"
proof -
  have "x = INT_MIN \<longleftrightarrow> sint x = sint INT_MIN"
    by (metis signed_word_eqI)
  then show ?thesis
    using sint_ge [of x] sint_lt [of x] by (auto simp add: sint_INT_MIN int32_abs_range_def)
qed

lemma word32_eq_iff_sint: "(x :: int32) = y \<longleftrightarrow> sint x = sint y"
  by (metis signed_word_eqI)

lemma sint_std_abs:
  assumes "x \<noteq> INT_MIN"
  shows "sint (std_abs x) = \<bar>sint x\<bar>"
proof (cases "x <s 0")
  case True
  from assms have r: "int32_abs_range (sint x)" by (simp add: not_INT_MIN_iff)
  then have "int32_range (- sint x)"
    by (simp add: int32_range_def int32_abs_range_def)
  then have "sint (- x) = - sint x"
    by (simp add: sint_word_minus int32_range_def signed_take_bit_int_eq_self)
  with True show ?thesis by (simp add: std_abs_def word_sless_alt)
next
  case False
  then show ?thesis by (simp add: std_abs_def word_sless_alt)
qed

lemma gcd_int32_range:
  assumes "0 \<le> a" "0 \<le> b" "int32_range a" "int32_range b"
  shows "int32_range (gcd a b)" 
proof (cases "a = 0")
  case True
  with assms show ?thesis by simp
next
  case False
  with assms have "gcd a b \<le> a" by (intro gcd_le1_int) simp
  moreover have "(- (2 ^ 31) :: int) \<le> gcd a b"
  proof -
    have "(- (2 ^ 31) :: int) \<le> 0" by simp
    also have "0 \<le> gcd a b" by simp
    finally show ?thesis .
  qed
  ultimately show ?thesis using assms(3) by (simp add: int32_range_def)
qed

lemma gcd_cpp32_0: "gcd_cpp32 m 0 = m"
  by (subst gcd_cpp32.simps) simp

lemma gcd_cpp32_rec: "n \<noteq> 0 \<Longrightarrow> gcd_cpp32 m n = gcd_cpp32 n (cpp_mod32 m n)"
  by (subst gcd_cpp32.simps) simp

lemma sint_gcd_cpp32:
  "0 \<le> sint m \<Longrightarrow> 0 \<le> sint n \<Longrightarrow> sint (gcd_cpp32 m n) = gcd (sint m) (sint n)"
proof (induction m n rule: gcd_cpp32.induct)
  case (1 m n)
  show ?case
  proof (cases "n = 0")
    case True
    with "1.prems" show ?thesis by (simp add: gcd_cpp32_0)
  next
    case False
    then have "sint n \<noteq> 0" by (simp add: signed_eq_0_iff)
    with "1.prems" have pos: "0 < sint n" by simp
    have sm: "sint m smod sint n = sint m mod sint n"
      using "1.prems" pos by (simp add: signed_modulo_int_def sgn_if)
    have lo: "0 \<le> sint m mod sint n" using pos by simp
    have "sint m mod sint n < sint n" using pos by simp
    with lo sint_lt [of n] have "int32_range (sint m mod sint n)"
      by (simp add: int32_range_def)
    then have r: "sint (cpp_mod32 m n) = sint m mod sint n"
      by (simp add: cpp_mod32_def sm sint_word_of_int32)
    from "1.IH" [OF False] "1.prems" r lo
    have "sint (gcd_cpp32 n (cpp_mod32 m n)) = gcd (sint n) (sint m mod sint n)"
      by simp
    also have "\<dots> = gcd (sint m) (sint n)"
      by (metis gcd_red_int)
    finally show ?thesis using False by (simp add: gcd_cpp32_rec)
  qed
qed

lemma sint_std_gcd32:
  assumes "0 \<le> sint m" "0 \<le> sint n"
  shows "sint (std_gcd32 m n) = gcd (sint m) (sint n)"
  unfolding std_gcd32_def
  by (intro sint_word_of_int32 gcd_int32_range assms sint_int32_range)

lemma sint_gcd32:
  "0 \<le> sint m \<Longrightarrow> 0 \<le> sint n \<Longrightarrow> sint (gcd32 c m n) = gcd (sint m) (sint n)"
  by (simp add: gcd32_def sint_gcd_cpp32 sint_std_gcd32)

lemma sint_gcd32_abs:
  assumes "n \<noteq> INT_MIN" "d \<noteq> INT_MIN"
  shows "sint (gcd32 c (std_abs n) (std_abs d)) = gcd (sint n) (sint d)"
  using assms by (simp add: sint_gcd32 sint_std_abs)

subsection \<open>\<^verbatim>\<open>normalize_\<close> refines the exact model where nothing overflows\<close>

lemma abs_div_exact_le:
  fixes a g :: int
  assumes "0 < g" "g dvd a"
  shows "\<bar>a div g\<bar> \<le> \<bar>a\<bar>"
proof -
  from assms(2) obtain k where k: "a = g * k" unfolding dvd_def by blast
  with assms(1) have q: "a div g = k" by simp
  have "\<bar>k\<bar> * 1 \<le> \<bar>k\<bar> * g"
    using assms(1) by (intro mult_left_mono) simp_all
  then have "\<bar>k\<bar> \<le> \<bar>g * k\<bar>"
    using assms(1) by (simp add: abs_mult ac_simps)
  with q k show ?thesis by simp
qed

lemma int32_abs_range_le:
  "int32_abs_range a \<Longrightarrow> \<bar>b\<bar> \<le> \<bar>a\<bar> \<Longrightarrow> int32_abs_range b"
  by (auto simp add: int32_abs_range_def)

lemma int32_abs_range_times_sign:
  "int32_abs_range a \<Longrightarrow> int32_abs_range (a * (if P then - 1 else 1))"
  by (auto simp add: int32_abs_range_def)

lemma normalize32_exact:
  assumes "num32 r \<noteq> INT_MIN" "den32 r \<noteq> INT_MIN" "num32 r \<noteq> 0 \<or> den32 r \<noteq> 0"
  shows "\<exists>f. normalize32 c r = Inr f \<and> num32 f \<noteq> INT_MIN \<and> den32 f \<noteq> INT_MIN \<and>
    fraction_normalize \<lparr>num = sint (num32 r), den = sint (den32 r)\<rparr> =
      Inr \<lparr>num = sint (num32 f), den = sint (den32 f)\<rparr>"
proof -
  let ?n = "sint (num32 r)" and ?d = "sint (den32 r)"
  let ?G = "gcd ?n ?d"
  let ?s = "if ?d < 0 then - 1 else 1 :: int"
  let ?N = "?n div ?G * ?s" and ?D = "?d div ?G * ?s"
  let ?g = "gcd32 c (std_abs (num32 r)) (std_abs (den32 r))"
  let ?m = "if den32 r <s 0 then - 1 else 1 :: int32"
  have nz: "?n \<noteq> 0 \<or> ?d \<noteq> 0"
    using assms(3) by (simp add: signed_eq_0_iff)
  then have G: "0 < ?G" by (simp add: gcd_pos_int)
  have g: "sint ?g = ?G"
    using assms(1,2) by (rule sint_gcd32_abs)
  with G have g0: "?g \<noteq> 0" by auto
  have m: "?m = word_of_int ?s"
    by (simp add: word_sless_alt)
  have dn: "cpp_div32 (num32 r) ?g = Inr (word_of_int (?n div ?G))"
    using g0 by (simp add: cpp_div32_def g sdiv_exact)
  have dd: "cpp_div32 (den32 r) ?g = Inr (word_of_int (?d div ?G))"
    using g0 by (simp add: cpp_div32_def g sdiv_exact)
  let ?f = "r\<lparr>num32 := word_of_int ?N, den32 := word_of_int ?D\<rparr>"
  have 1: "normalize32 c r = Inr ?f"
    unfolding normalize32_def Let_def dn sum.case
    by (simp add: dd m)
  have "int32_abs_range ?n" "int32_abs_range ?d"
    using assms(1,2) by (simp_all add: not_INT_MIN_iff)
  moreover have "\<bar>?n div ?G\<bar> \<le> \<bar>?n\<bar>" "\<bar>?d div ?G\<bar> \<le> \<bar>?d\<bar>"
    using G by (simp_all add: abs_div_exact_le)
  ultimately have "int32_abs_range (?n div ?G)" "int32_abs_range (?d div ?G)"
    by (blast intro: int32_abs_range_le)+
  then have ND: "int32_abs_range ?N" "int32_abs_range ?D"
    by (simp_all only: int32_abs_range_times_sign)
  then have "sint (word_of_int ?N :: int32) = ?N" "sint (word_of_int ?D :: int32) = ?D"
    by (blast intro: sint_word_of_int32 int32_abs_rangeD)+
  then have s: "sint (num32 ?f) = ?N" "sint (den32 ?f) = ?D"
    by (simp_all split del: if_split)
  have "fraction_normalize \<lparr>num = ?n, den = ?d\<rparr> = Inr \<lparr>num = ?N, den = ?D\<rparr>"
    using nz by (simp add: fraction_normalize_nonzero)
  with s have 2: "fraction_normalize \<lparr>num = ?n, den = ?d\<rparr> =
      Inr \<lparr>num = sint (num32 ?f), den = sint (den32 ?f)\<rparr>"
    by simp
  from ND s have 3: "num32 ?f \<noteq> INT_MIN" "den32 ?f \<noteq> INT_MIN"
    by (simp_all only: not_INT_MIN_iff)
  from 1 2 3 show ?thesis by blast
qed

lemma normalize32_zero_zero:
  "num32 r = 0 \<Longrightarrow> den32 r = 0 \<Longrightarrow> normalize32 c r = Inl DivisionByZero"
  by (simp add: normalize32_def std_abs_def gcd32_def gcd_cpp32_0 std_gcd32_def cpp_div32_def)

lemma normalize32_legal:
  assumes "num32 r \<noteq> INT_MIN" "den32 r \<noteq> INT_MIN" "den32 r \<noteq> 0"
  shows "\<exists>f. normalize32 c r = Inr f \<and> num32 f \<noteq> INT_MIN \<and> 0 < sint (den32 f) \<and>
    coprime (sint (num32 f)) (sint (den32 f)) \<and>
    sint (num32 f) * sint (den32 r) = sint (num32 r) * sint (den32 f) \<and>
    (num32 r = 0 \<longrightarrow> den32 f = 1)"
proof -
  from normalize32_exact [of r c] assms
  obtain f where f: "normalize32 c r = Inr f"
    "fraction_normalize \<lparr>num = sint (num32 r), den = sint (den32 r)\<rparr> =
      Inr \<lparr>num = sint (num32 f), den = sint (den32 f)\<rparr>"
    and fm: "num32 f \<noteq> INT_MIN"
    by blast
  have "den \<lparr>num = sint (num32 r), den = sint (den32 r)\<rparr> \<noteq> 0"
    using assms(3) by (simp add: signed_eq_0_iff)
  from fraction_normalize_legal [OF this] f(2)
  have "0 < sint (den32 f)" "coprime (sint (num32 f)) (sint (den32 f))"
    "sint (num32 f) * sint (den32 r) = sint (num32 r) * sint (den32 f)"
    "sint (num32 r) = 0 \<longrightarrow> sint (den32 f) = 1"
    by auto
  moreover have "den32 f = 1" if "sint (den32 f) = 1"
    using that by (simp add: word32_eq_iff_sint)
  ultimately show ?thesis using f(1) fm by (auto simp add: signed_eq_0_iff)
qed

lemma normalize32_illegal:
  assumes "num32 r \<noteq> INT_MIN" "den32 r = 0" "num32 r \<noteq> 0"
  shows "normalize32 c r = Inr (r\<lparr>num32 := (if 0 <s num32 r then 1 else - 1), den32 := 0\<rparr>)"
proof -
  have d: "den32 r \<noteq> INT_MIN" using assms(2) by (simp add: INT_MIN_def)
  from normalize32_exact [of r c] assms d
  obtain f where f: "normalize32 c r = Inr f"
    "fraction_normalize \<lparr>num = sint (num32 r), den = sint (den32 r)\<rparr> =
      Inr \<lparr>num = sint (num32 f), den = sint (den32 f)\<rparr>"
    by blast
  have "sint (num32 r) \<noteq> 0" using assms(3) by (simp add: signed_eq_0_iff)
  with assms(2) f(2) have "sint (num32 f) = sgn (sint (num32 r))" "sint (den32 f) = 0"
    by (simp_all add: fraction_normalize_illegal)
  then have "num32 f = (if 0 <s num32 r then 1 else - 1)" "den32 f = 0"
    using \<open>sint (num32 r) \<noteq> 0\<close>
    by (auto simp add: word32_eq_iff_sint word_sless_alt sgn_if)
  then have "f = r\<lparr>num32 := (if 0 <s num32 r then 1 else - 1), den32 := 0\<rparr>"
    by (cases f, cases r) simp
  with f(1) show ?thesis by simp
qed

subsection \<open>Constructors, operators and the values they produce\<close>

lemma gcd32_one: "gcd32 c x 1 = 1"
proof -
  have "cpp_mod32 x 1 = 0"
    by (simp add: cpp_mod32_def signed_modulo_int_def)
  then have "gcd_cpp32 x 1 = 1"
    by (simp add: gcd_cpp32_rec gcd_cpp32_0)
  then show ?thesis
    by (simp add: gcd32_def std_gcd32_def)
qed

lemma fraction_of_value32_eq:
  "fraction_of_value32 c v = Inr \<lparr>num32 = v, den32 = 1\<rparr>"
proof -
  have "std_abs 1 = 1"
    by (simp add: std_abs_def word_sless_alt)
  moreover have "\<not> (1 :: int32) <s 0"
    by (simp add: word_sless_alt)
  ultimately show ?thesis
    by (simp add: fraction_of_value32_def fraction_ctor32_def normalize32_def
        gcd32_one cpp_div32_def)
qed

lemma fraction32_update_all:
  "(a::fraction32)\<lparr>num32 := n, den32 := d\<rparr> = \<lparr>num32 = n, den32 = d\<rparr>"
  by simp

lemma fraction32_update_den:
  "(a::fraction32)\<lparr>den32 := d\<rparr> = \<lparr>num32 = num32 a, den32 = d\<rparr>"
  by (cases a) simp

lemmas operator32_defs =
  operator_plus_assign32_def operator_minus_assign32_def operator_times_assign32_def
  operator_divide_assign32_def
  operator_plus_assign_value32_def operator_minus_assign_value32_def
  operator_times_assign_value32_def operator_divide_assign_value32_def
  operator_plus32_def operator_minus32_def operator_times32_def operator_divide32_def
  operator_plus_value32_def operator_minus_value32_def operator_times_value32_def
  operator_divide_value32_def

lemma produced32_normalized: "produced32 c r f \<Longrightarrow> normalize32 c r = Inr f"
proof (induction rule: produced32.induct)
  case (by_unary_plus32 r a)
  then show ?case by (simp add: operator_unary_plus32_def)
next
  case (by_of_value32 v f)
  then show ?case by (simp add: fraction_of_value32_def fraction_ctor32_def)
next
  case (by_ctor32 n d f)
  then show ?case by (simp add: fraction_ctor32_def)
next
  case (by_zero32 f)
  then show ?case by (simp add: zero32_def fraction_ctor32_def)
next
  case (by_unary_minus32 a f)
  then show ?case by (simp add: operator_unary_minus32_def fraction_ctor32_def)
qed (simp_all add: operator32_defs fraction_of_value32_eq normalize32_2_def
      fraction32_update_all fraction32_update_den)

lemma normalize32_Inr_legal:
  assumes "normalize32 c r = Inr f" "is_legal32 f" "num32 r \<noteq> INT_MIN"
  shows "den32 r \<noteq> 0"
proof
  assume d: "den32 r = 0"
  show False
  proof (cases "num32 r = 0")
    case True
    with d assms(1) show False by (simp add: normalize32_zero_zero)
  next
    case False
    from normalize32_illegal [OF assms(3) d False, of c] assms(1)
    have "den32 f = 0" by auto
    with assms(2) show False by (simp add: is_legal32_def)
  qed
qed

lemma produced32_legal_invariant:
  assumes "produced32 c r f" "num32 r \<noteq> INT_MIN" "den32 r \<noteq> INT_MIN" "is_legal32 f"
  shows "0 < sint (den32 f)" "coprime (sint (num32 f)) (sint (den32 f))"
    "num32 f = 0 \<Longrightarrow> den32 f = 1" "num32 f \<noteq> INT_MIN" "den32 f \<noteq> INT_MIN"
proof -
  from assms(1) have n: "normalize32 c r = Inr f" by (rule produced32_normalized)
  from n assms(4,2) have d: "den32 r \<noteq> 0" by (rule normalize32_Inr_legal)
  from normalize32_legal [OF assms(2,3) d, of c] n
  have f: "0 < sint (den32 f)" "coprime (sint (num32 f)) (sint (den32 f))"
    "sint (num32 f) * sint (den32 r) = sint (num32 r) * sint (den32 f)"
    "num32 r = 0 \<longrightarrow> den32 f = 1" "num32 f \<noteq> INT_MIN"
    by auto
  from f show "0 < sint (den32 f)" "coprime (sint (num32 f)) (sint (den32 f))"
    "num32 f \<noteq> INT_MIN"
    by simp_all
  from f(1) show "den32 f \<noteq> INT_MIN"
    by (auto simp add: sint_INT_MIN)
  show "den32 f = 1" if "num32 f = 0"
  proof -
    from that f(3) f(1) have "sint (num32 r) = 0" by auto
    then have "num32 r = 0" by (simp add: signed_eq_0_iff)
    with f(4) show ?thesis by simp
  qed
qed

lemma gcd32_abs_eq_one_iff:
  assumes "n \<noteq> INT_MIN" "d \<noteq> INT_MIN"
  shows "gcd32 c (std_abs n) (std_abs d) = 1 \<longleftrightarrow> coprime (sint n) (sint d)"
proof -
  have "gcd32 c (std_abs n) (std_abs d) = 1 \<longleftrightarrow>
    sint (gcd32 c (std_abs n) (std_abs d)) = sint (1 :: int32)"
    by (rule word32_eq_iff_sint)
  then show ?thesis
    using assms by (simp add: sint_gcd32_abs coprime_iff_gcd_eq_1)
qed

lemma sint_mult32:
  "int32_range (sint x * sint y) \<Longrightarrow> sint (x * y :: int32) = sint x * sint y"
  by (simp add: sint_word_mult int32_range_def signed_take_bit_int_eq_self)

subsection \<open>What holds of both embeddings\<close>

text \<open>
  The facts that do not depend on the range of the integers hold of \<^verbatim>\<open>fraction<int>\<close>
  as they do under exact arithmetic: every operator normalizes its raw pair, with a
  bare integer lifted to \<open>(v, 1)\<close>; the pair \<open>(0, 0)\<close> makes \<^verbatim>\<open>normalize_\<close> divide by
  zero, and so does \<open>(0, 1) / (0, 1)\<close>; the two truth tests negate each other.
\<close>

lemma operators32_normalize_raw_pair:
  "operator_plus32 c a b = normalize32 c
     \<lparr>num32 = num32 a * den32 b + den32 a * num32 b, den32 = den32 a * den32 b\<rparr>"
  "operator_minus32 c a b = normalize32 c
     \<lparr>num32 = num32 a * den32 b - den32 a * num32 b, den32 = den32 a * den32 b\<rparr>"
  "operator_times32 c a b = normalize32 c
     \<lparr>num32 = num32 a * num32 b, den32 = den32 a * den32 b\<rparr>"
  "operator_divide32 c a b = normalize32 c
     \<lparr>num32 = num32 a * den32 b, den32 = den32 a * num32 b\<rparr>"
  "operator_plus_value32 c a v = operator_plus32 c a \<lparr>num32 = v, den32 = 1\<rparr>"
  "operator_minus_value32 c a v = operator_minus32 c a \<lparr>num32 = v, den32 = 1\<rparr>"
  "operator_times_value32 c a v = operator_times32 c a \<lparr>num32 = v, den32 = 1\<rparr>"
  "operator_divide_value32 c a v = operator_divide32 c a \<lparr>num32 = v, den32 = 1\<rparr>"
  by (simp_all add: operator32_defs fraction_of_value32_eq normalize32_2_def
      fraction32_update_all)

lemma zero_by_zero32_fails:
  "fraction_ctor32 c 0 1 = Inr \<lparr>num32 = 0, den32 = 1\<rparr>"
  "fraction_ctor32 c 0 0 = Inl DivisionByZero"
  "operator_divide32 c \<lparr>num32 = 0, den32 = 1\<rparr> \<lparr>num32 = 0, den32 = 1\<rparr> = Inl DivisionByZero"
  "operator_divide_value32 c \<lparr>num32 = 0, den32 = 1\<rparr> 0 = Inl DivisionByZero"
proof -
  show "fraction_ctor32 c 0 1 = Inr \<lparr>num32 = 0, den32 = 1\<rparr>"
    using fraction_of_value32_eq [of c 0] by (simp add: fraction_of_value32_def)
  show "fraction_ctor32 c 0 0 = Inl DivisionByZero"
    by (simp add: fraction_ctor32_def normalize32_zero_zero)
  show "operator_divide32 c \<lparr>num32 = 0, den32 = 1\<rparr> \<lparr>num32 = 0, den32 = 1\<rparr> =
      Inl DivisionByZero"
    by (simp add: operators32_normalize_raw_pair normalize32_zero_zero)
  then show "operator_divide_value32 c \<lparr>num32 = 0, den32 = 1\<rparr> 0 = Inl DivisionByZero"
    by (simp add: operators32_normalize_raw_pair)
qed

lemma not_and_bool32:
  "operator_not32 f \<longleftrightarrow> num32 f \<noteq> 0" "operator_bool32 f \<longleftrightarrow> num32 f = 0"
  "operator_bool32 f \<longleftrightarrow> \<not> operator_not32 f"
  by (simp_all add: operator_not32_def operator_bool32_def)

subsection \<open>Evaluation at concrete pairs\<close>

lemma normalize32_eval:
  assumes "int32_abs_range n" "int32_abs_range d"
    "fraction_normalize \<lparr>num = n, den = d\<rparr> = Inr \<lparr>num = n', den = d'\<rparr>"
  shows "normalize32 c \<lparr>num32 = word_of_int n, den32 = word_of_int d\<rparr> =
    Inr \<lparr>num32 = word_of_int n', den32 = word_of_int d'\<rparr>"
proof -
  let ?r = "\<lparr>num32 = word_of_int n, den32 = word_of_int d\<rparr> :: fraction32"
  have s: "sint (num32 ?r) = n" "sint (den32 ?r) = d"
    using assms(1,2) by (simp_all add: sint_word_of_int32 int32_abs_rangeD)
  with assms(1,2) have m: "num32 ?r \<noteq> INT_MIN" "den32 ?r \<noteq> INT_MIN"
    by (simp_all only: not_INT_MIN_iff)
  have "n \<noteq> 0 \<or> d \<noteq> 0"
  proof (rule ccontr)
    assume "\<not> (n \<noteq> 0 \<or> d \<noteq> 0)"
    then have "fraction_normalize \<lparr>num = n, den = d\<rparr> = Inl DivisionByZero"
      by (simp add: fraction_normalize_zero_zero)
    with assms(3) show False by simp
  qed
  with s have z: "num32 ?r \<noteq> 0 \<or> den32 ?r \<noteq> 0"
    by (metis signed_0)
  from normalize32_exact [OF m z, of c] s assms(3)
  obtain f where f: "normalize32 c ?r = Inr f" "sint (num32 f) = n'" "sint (den32 f) = d'"
    by auto
  from f(2,3) have "f = \<lparr>num32 = word_of_int n', den32 = word_of_int d'\<rparr>"
    by (cases f) auto
  with f(1) show ?thesis by simp
qed

lemma std_abs_INT_MIN: "std_abs INT_MIN = INT_MIN"
  by (simp add: std_abs_def INT_MIN_def)

lemma gcd32_one_INT_MIN: "gcd32 c 1 INT_MIN = 1"
proof -
  have "cpp_mod32 1 INT_MIN = 1"
    by (simp add: cpp_mod32_def INT_MIN_def signed_modulo_int_def)
  moreover have "cpp_mod32 INT_MIN 1 = 0"
    by (simp add: cpp_mod32_def signed_modulo_int_def)
  moreover have "INT_MIN \<noteq> 0"
    by (simp add: INT_MIN_def)
  ultimately have "gcd_cpp32 1 INT_MIN = 1"
    by (simp add: gcd_cpp32_rec gcd_cpp32_0)
  then show ?thesis
    by (simp add: gcd32_def std_gcd32_def)
qed

lemma normalize32_one_INT_MIN:
  "normalize32 c \<lparr>num32 = 1, den32 = INT_MIN\<rparr> = Inr \<lparr>num32 = - 1, den32 = INT_MIN\<rparr>"
proof -
  have "std_abs 1 = 1" by (simp add: std_abs_def word_sless_alt)
  moreover have "INT_MIN <s 0" by (simp add: INT_MIN_def word_sless_alt)
  moreover have "word_of_int (sint INT_MIN) * (- 1) = INT_MIN"
    by (simp add: INT_MIN_def)
  ultimately show ?thesis
    by (simp add: normalize32_def std_abs_INT_MIN gcd32_one_INT_MIN cpp_div32_def)
qed

lemma normalize32_INT_MIN_minus_one:
  "normalize32 c \<lparr>num32 = INT_MIN, den32 = - 1\<rparr> = Inr \<lparr>num32 = INT_MIN, den32 = 1\<rparr>"
proof -
  have "std_abs (- 1) = 1" by (simp add: std_abs_def word_sless_alt)
  moreover have "(- 1 :: int32) <s 0" by (simp add: word_sless_alt)
  moreover have "word_of_int (sint INT_MIN) * (- 1) = INT_MIN"
    by (simp add: INT_MIN_def)
  ultimately show ?thesis
    by (simp add: normalize32_def std_abs_INT_MIN gcd32_one cpp_div32_def)
qed

lemma normalize32_INT_MIN_zero:
  "normalize32 c \<lparr>num32 = INT_MIN, den32 = 0\<rparr> = Inr \<lparr>num32 = 1, den32 = 0\<rparr>"
proof -
  have g: "gcd32 c INT_MIN 0 = INT_MIN"
    by (simp add: gcd32_def gcd_cpp32_0 std_gcd32_def sint_INT_MIN) (simp add: INT_MIN_def)
  have z: "INT_MIN \<noteq> 0"
    by (simp add: INT_MIN_def)
  have "sint INT_MIN sdiv sint INT_MIN = 1"
    by (simp add: sint_INT_MIN signed_divide_int_def)
  moreover have "std_abs 0 = 0"
    by (simp add: std_abs_def)
  ultimately show ?thesis
    using z by (simp add: normalize32_def std_abs_INT_MIN g cpp_div32_def)
qed

lemma times_overflow_example:
  "operator_times32 c \<lparr>num32 = 1, den32 = 65536\<rparr> \<lparr>num32 = 1, den32 = 32768\<rparr> =
     Inr \<lparr>num32 = - 1, den32 = INT_MIN\<rparr>"
proof -
  have "(65536 :: int32) * 32768 = INT_MIN" by (simp add: INT_MIN_def)
  then show ?thesis
    by (simp add: operator_times32_def operator_times_assign32_def normalize32_2_def
        normalize32_one_INT_MIN)
qed

lemma produced32_legal_eq:
  assumes "produced32 c ra a" "num32 ra \<noteq> INT_MIN" "den32 ra \<noteq> INT_MIN" "is_legal32 a"
    and "produced32 c rb b" "num32 rb \<noteq> INT_MIN" "den32 rb \<noteq> INT_MIN" "is_legal32 b"
    and "sint (num32 a) * sint (den32 b) = sint (num32 b) * sint (den32 a)"
  shows "a = b"
proof -
  note ia = produced32_legal_invariant [OF assms(1-4)]
  note ib = produced32_legal_invariant [OF assms(5-8)]
  from canonical_unique [OF ia(1) ib(1) ia(2) ib(2) assms(9)]
  have "num32 a = num32 b" "den32 a = den32 b"
    by (simp_all add: word32_eq_iff_sint)
  then show ?thesis by simp
qed

lemma sint_mult32_abs:
  assumes "int32_abs_range (sint x * sint y)"
  shows "sint (x * y :: int32) = sint x * sint y" "x * y \<noteq> INT_MIN"
proof -
  show s: "sint (x * y) = sint x * sint y"
    using assms by (intro sint_mult32 int32_abs_rangeD)
  show "x * y \<noteq> INT_MIN"
    using assms by (simp only: not_INT_MIN_iff s)
qed

lemma same_quotient:
  fixes a b c d :: int
  assumes "a * d = c * b" "d \<noteq> 0" "0 < b"
  shows "real_of_int a / real_of_int b = real_of_int c / real_of_int d"
proof -
  have "real_of_int a * real_of_int d = real_of_int c * real_of_int b"
    using assms(1) by (metis of_int_mult)
  then show ?thesis using assms(2,3) by (simp add: field_simps)
qed

section \<open>The claims\<close>

text \<open>
  C2, C5, C6, C9 and C10 are stated on the header under exact arithmetic; C1, C3, C4,
  C7 and C8 are stated on \<^verbatim>\<open>fraction<int>\<close>, where wrap-around decides them.
\<close>

subsection \<open>C1: the canonical form of every legal value\<close>

text \<open>
  C1, as stated: every legal value (denominator non-zero) that a constructor or an
  arithmetic operation has produced is in canonical form, so in particular its
  denominator is positive. In \<^verbatim>\<open>fraction<int>\<close> the constructor, given \<open>(1, INT_MIN)\<close>,
  returns the legal value \<open>(-1, INT_MIN)\<close>, whose denominator is negative: both
  \<^verbatim>\<open>std::abs(den_)\<close> and \<^verbatim>\<open>den_ / g * m\<close> with \<open>m = -1\<close> wrap around. The product
  \<open>(1, 65536) * (1, 32768)\<close> is the same value, its raw denominator \<open>2\<^sup>3\<^sup>1\<close> having
  wrapped to \<open>INT_MIN\<close>.
\<close>

theorem produced32_legal_canonical_counterexample:
  "produced32 201402 \<lparr>num32 = 1, den32 = INT_MIN\<rparr> \<lparr>num32 = - 1, den32 = INT_MIN\<rparr> \<and>
   produced32 201703 \<lparr>num32 = 1, den32 = INT_MIN\<rparr> \<lparr>num32 = - 1, den32 = INT_MIN\<rparr> \<and>
   is_legal32 \<lparr>num32 = - 1, den32 = INT_MIN\<rparr> \<and>
   \<not> 0 <s den32 \<lparr>num32 = - 1, den32 = INT_MIN\<rparr> \<and>
   operator_times32 201402 \<lparr>num32 = 1, den32 = 65536\<rparr> \<lparr>num32 = 1, den32 = 32768\<rparr> =
     Inr \<lparr>num32 = - 1, den32 = INT_MIN\<rparr>"
proof -
  have c: "fraction_ctor32 c 1 INT_MIN = Inr \<lparr>num32 = - 1, den32 = INT_MIN\<rparr>" for c
    by (simp add: fraction_ctor32_def normalize32_one_INT_MIN)
  have 1: "produced32 201402 \<lparr>num32 = 1, den32 = INT_MIN\<rparr> \<lparr>num32 = - 1, den32 = INT_MIN\<rparr>"
    using c by (rule by_ctor32)
  have 2: "produced32 201703 \<lparr>num32 = 1, den32 = INT_MIN\<rparr> \<lparr>num32 = - 1, den32 = INT_MIN\<rparr>"
    using c by (rule by_ctor32)
  have 3: "is_legal32 \<lparr>num32 = - 1, den32 = INT_MIN\<rparr>"
    by (simp add: is_legal32_def INT_MIN_def)
  have 4: "\<not> 0 <s den32 \<lparr>num32 = - 1, den32 = INT_MIN\<rparr>"
    by (simp add: INT_MIN_def word_sless_alt)
  note 5 = times_overflow_example [of 201402]
  from 1 2 3 4 5 show ?thesis by (intro conjI)
qed

text \<open>
  C1, amended: every legal value that a constructor or an arithmetic operation has
  produced from a raw pair \<open>(n, d)\<close> (the constructor's arguments, or the pair that the
  operator computes in the integer type before normalizing) in which neither \<open>n\<close> nor
  \<open>d\<close> is the minimum value of the integer type, is in canonical form: the gcd of the
  absolute values of its numerator and denominator is 1 (for the header's gcd and for
  the mathematical one), its denominator is positive, and if its numerator is 0 it is
  exactly the pair \<open>(0, 1)\<close>.
\<close>

theorem produced32_legal_canonical:
  assumes "produced32 c r f" "num32 r \<noteq> INT_MIN" "den32 r \<noteq> INT_MIN" "is_legal32 f"
  shows "gcd32 c (std_abs (num32 f)) (std_abs (den32 f)) = 1 \<and>
    gcd \<bar>sint (num32 f)\<bar> \<bar>sint (den32 f)\<bar> = 1 \<and> 0 <s den32 f \<and>
    (num32 f = 0 \<longrightarrow> f = \<lparr>num32 = 0, den32 = 1\<rparr>)"
proof -
  note inv = produced32_legal_invariant [OF assms]
  from inv(2,4,5) have "gcd32 c (std_abs (num32 f)) (std_abs (den32 f)) = 1"
    by (simp add: gcd32_abs_eq_one_iff)
  moreover from inv(2) have "gcd \<bar>sint (num32 f)\<bar> \<bar>sint (den32 f)\<bar> = 1"
    by (simp add: coprime_iff_gcd_eq_1)
  moreover from inv(1) have "0 <s den32 f"
    by (simp add: word_sless_alt)
  moreover have "f = \<lparr>num32 = 0, den32 = 1\<rparr>" if "num32 f = 0"
    using that inv(3) by (cases f) simp
  ultimately show ?thesis by blast
qed

theorem produced32_legal_canonical_witness:
  "produced32 201703 \<lparr>num32 = 15, den32 = 63\<rparr> \<lparr>num32 = 5, den32 = 21\<rparr> \<and>
   num32 \<lparr>num32 = 15, den32 = 63\<rparr> \<noteq> INT_MIN \<and>
   den32 \<lparr>num32 = 15, den32 = 63\<rparr> \<noteq> INT_MIN \<and>
   is_legal32 \<lparr>num32 = 5, den32 = 21\<rparr> \<and>
   gcd32 201703 (std_abs (num32 \<lparr>num32 = 5, den32 = 21\<rparr>))
     (std_abs (den32 \<lparr>num32 = 5, den32 = 21\<rparr>)) = 1 \<and>
   0 <s den32 \<lparr>num32 = 5, den32 = 21\<rparr>"
proof -
  have "fraction_normalize \<lparr>num = 15, den = 63\<rparr> = Inr \<lparr>num = 5, den = 21\<rparr>"
    by code_simp
  from normalize32_eval [OF _ _ this, of 201703]
  have "fraction_ctor32 201703 15 63 = Inr \<lparr>num32 = 5, den32 = 21\<rparr>"
    by (simp add: fraction_ctor32_def int32_abs_range_def)
  then have p: "produced32 201703 \<lparr>num32 = 15, den32 = 63\<rparr> \<lparr>num32 = 5, den32 = 21\<rparr>"
    by (rule by_ctor32)
  have n: "num32 \<lparr>num32 = 15, den32 = 63\<rparr> \<noteq> INT_MIN"
    and d: "den32 \<lparr>num32 = 15, den32 = 63\<rparr> \<noteq> INT_MIN"
    by (simp_all add: INT_MIN_def)
  have l: "is_legal32 \<lparr>num32 = 5, den32 = 21\<rparr>"
    by (simp add: is_legal32_def)
  from produced32_legal_canonical [OF p n d l] p n d l show ?thesis
    by (intro conjI) simp_all
qed

subsection \<open>C2: the operators normalize the raw pairs of the specification\<close>

text \<open>
  C2. For \<open>a = (n\<^sub>1, d\<^sub>1)\<close> and \<open>b = (n\<^sub>2, d\<^sub>2)\<close>, addition, subtraction, multiplication
  and division normalize the raw pairs \<open>(n\<^sub>1 d\<^sub>2 + d\<^sub>1 n\<^sub>2, d\<^sub>1 d\<^sub>2)\<close>,
  \<open>(n\<^sub>1 d\<^sub>2 - d\<^sub>1 n\<^sub>2, d\<^sub>1 d\<^sub>2)\<close>, \<open>(n\<^sub>1 n\<^sub>2, d\<^sub>1 d\<^sub>2)\<close> and \<open>(n\<^sub>1 d\<^sub>2, d\<^sub>1 n\<^sub>2)\<close>; a bare
  integer \<open>v\<close> on the right is first lifted to \<open>(v, 1)\<close>. This holds for the compound
  assignments and for the free operators.
\<close>

theorem operators_normalize_raw_pair:
  "fraction_of_value v = Inr (spec_lift v) \<and>
   operator_plus_assign a b = fraction_normalize (spec_raw_plus a b) \<and>
   operator_minus_assign a b = fraction_normalize (spec_raw_minus a b) \<and>
   operator_times_assign a b = fraction_normalize (spec_raw_times a b) \<and>
   operator_divide_assign a b = fraction_normalize (spec_raw_divide a b) \<and>
   operator_plus_assign_value a v = fraction_normalize (spec_raw_plus a (spec_lift v)) \<and>
   operator_minus_assign_value a v = fraction_normalize (spec_raw_minus a (spec_lift v)) \<and>
   operator_times_assign_value a v = fraction_normalize (spec_raw_times a (spec_lift v)) \<and>
   operator_divide_assign_value a v = fraction_normalize (spec_raw_divide a (spec_lift v)) \<and>
   operator_plus a b = fraction_normalize (spec_raw_plus a b) \<and>
   operator_minus a b = fraction_normalize (spec_raw_minus a b) \<and>
   operator_times a b = fraction_normalize (spec_raw_times a b) \<and>
   operator_divide a b = fraction_normalize (spec_raw_divide a b) \<and>
   operator_plus_value a v = fraction_normalize (spec_raw_plus a (spec_lift v)) \<and>
   operator_minus_value a v = fraction_normalize (spec_raw_minus a (spec_lift v)) \<and>
   operator_times_value a v = fraction_normalize (spec_raw_times a (spec_lift v)) \<and>
   operator_divide_value a v = fraction_normalize (spec_raw_divide a (spec_lift v))"
  unfolding operator_defs fraction_of_value_eq sum.case fraction_normalize2_def
    fraction_update_all spec_raw_plus_def spec_raw_minus_def spec_raw_times_def
    spec_raw_divide_def spec_lift_def
  by simp

subsection \<open>C3: construction from a pair\<close>

text \<open>
  C3, as stated: for every \<open>d \<noteq> 0\<close>, constructing from \<open>(n, d)\<close> returns the canonical
  representative of \<open>n / d\<close>. In \<^verbatim>\<open>fraction<int>\<close>, constructing from \<open>(1, INT_MIN)\<close>
  returns \<open>(-1, INT_MIN)\<close>, with a negative denominator, and constructing from
  \<open>(INT_MIN, -1)\<close> returns \<open>(INT_MIN, 1)\<close>, which is not the same rational.
\<close>

theorem fraction_ctor32_counterexample:
  "fraction_ctor32 201402 1 INT_MIN = Inr \<lparr>num32 = - 1, den32 = INT_MIN\<rparr> \<and>
   fraction_ctor32 201703 1 INT_MIN = Inr \<lparr>num32 = - 1, den32 = INT_MIN\<rparr> \<and>
   INT_MIN \<noteq> 0 \<and>
   \<not> 0 <s den32 \<lparr>num32 = - 1, den32 = INT_MIN\<rparr> \<and>
   fraction_ctor32 201402 INT_MIN (- 1) = Inr \<lparr>num32 = INT_MIN, den32 = 1\<rparr> \<and>
   fraction_ctor32 201703 INT_MIN (- 1) = Inr \<lparr>num32 = INT_MIN, den32 = 1\<rparr> \<and>
   sint (num32 \<lparr>num32 = INT_MIN, den32 = 1\<rparr>) * sint (- 1 :: int32) \<noteq>
     sint INT_MIN * sint (den32 \<lparr>num32 = INT_MIN, den32 = 1\<rparr>)"
proof -
  have 1: "fraction_ctor32 c 1 INT_MIN = Inr \<lparr>num32 = - 1, den32 = INT_MIN\<rparr>" for c
    by (simp add: fraction_ctor32_def normalize32_one_INT_MIN)
  have 2: "INT_MIN \<noteq> 0"
    by (simp add: INT_MIN_def)
  have 3: "\<not> 0 <s den32 \<lparr>num32 = - 1, den32 = INT_MIN\<rparr>"
    by (simp add: INT_MIN_def word_sless_alt)
  have 4: "fraction_ctor32 c INT_MIN (- 1) = Inr \<lparr>num32 = INT_MIN, den32 = 1\<rparr>" for c
    by (simp add: fraction_ctor32_def normalize32_INT_MIN_minus_one)
  have 5: "sint (num32 \<lparr>num32 = INT_MIN, den32 = 1\<rparr>) * sint (- 1 :: int32) \<noteq>
     sint INT_MIN * sint (den32 \<lparr>num32 = INT_MIN, den32 = 1\<rparr>)"
    by (simp add: sint_INT_MIN)
  from 1 2 3 4 5 show ?thesis by (intro conjI)
qed

text \<open>
  C3, amended: for every pair \<open>(n, d)\<close> with \<open>d \<noteq> 0\<close> in which neither \<open>n\<close> nor \<open>d\<close> is
  the minimum value of the integer type, constructing from \<open>(n, d)\<close> returns the unique
  canonical representative of \<open>n / d\<close>: a pair of the same rational value, in lowest
  terms and with a positive denominator, and the only such pair. Constructing from
  \<open>(15, 63)\<close> gives \<open>(5, 21)\<close>, and from \<open>(4, -6)\<close> gives \<open>(-2, 3)\<close>.
\<close>

theorem fraction_ctor32_canonical:
  assumes "d \<noteq> 0" "n \<noteq> INT_MIN" "d \<noteq> INT_MIN"
  shows "(\<exists>f. fraction_ctor32 c n d = Inr f \<and>
           real_of_int (sint (num32 f)) / real_of_int (sint (den32 f)) =
             real_of_int (sint n) / real_of_int (sint d) \<and>
           gcd32 c (std_abs (num32 f)) (std_abs (den32 f)) = 1 \<and>
           gcd \<bar>sint (num32 f)\<bar> \<bar>sint (den32 f)\<bar> = 1 \<and> 0 <s den32 f \<and>
           (\<forall>p q. sint p * sint d = sint n * sint q \<and>
                  gcd \<bar>sint p\<bar> \<bar>sint q\<bar> = 1 \<and> 0 <s q \<longrightarrow>
              p = num32 f \<and> q = den32 f)) \<and>
         fraction_ctor32 c 15 63 = Inr \<lparr>num32 = 5, den32 = 21\<rparr> \<and>
         fraction_ctor32 c 4 (- 6) = Inr \<lparr>num32 = - 2, den32 = 3\<rparr>"
proof -
  let ?r = "\<lparr>num32 = n, den32 = d\<rparr>"
  have "num32 ?r \<noteq> INT_MIN" "den32 ?r \<noteq> INT_MIN" "den32 ?r \<noteq> 0"
    using assms by simp_all
  from normalize32_legal [OF this, of c]
  obtain f where f: "normalize32 c ?r = Inr f" "num32 f \<noteq> INT_MIN" "0 < sint (den32 f)"
    "coprime (sint (num32 f)) (sint (den32 f))"
    "sint (num32 f) * sint d = sint n * sint (den32 f)"
    by auto
  have d0: "sint d \<noteq> 0" using assms(1) by (simp add: signed_eq_0_iff)
  have val: "real_of_int (sint (num32 f)) / real_of_int (sint (den32 f)) =
      real_of_int (sint n) / real_of_int (sint d)"
    using f(5) d0 f(3) by (rule same_quotient)
  have uniq: "p = num32 f \<and> q = den32 f"
    if "sint p * sint d = sint n * sint q \<and> gcd \<bar>sint p\<bar> \<bar>sint q\<bar> = 1 \<and> 0 <s q"
    for p q :: int32
  proof -
    from that have c: "coprime (sint p) (sint q)" and q: "0 < sint q"
      by (simp_all add: coprime_iff_gcd_eq_1 word_sless_alt)
    have "(sint p * sint (den32 f)) * sint d = (sint (num32 f) * sint q) * sint d"
    proof -
      have "(sint p * sint (den32 f)) * sint d = (sint p * sint d) * sint (den32 f)"
        by (simp add: ac_simps)
      also have "\<dots> = (sint n * sint q) * sint (den32 f)" using that by simp
      also have "\<dots> = (sint n * sint (den32 f)) * sint q" by (simp add: ac_simps)
      also have "\<dots> = (sint (num32 f) * sint d) * sint q" using f(5) by simp
      also have "\<dots> = (sint (num32 f) * sint q) * sint d" by (simp add: ac_simps)
      finally show ?thesis .
    qed
    with d0 have "sint p * sint (den32 f) = sint (num32 f) * sint q" by simp
    with canonical_unique [of "sint q" "sint (den32 f)" "sint p" "sint (num32 f)"] q c f(3,4)
    show ?thesis by (simp add: word32_eq_iff_sint)
  qed
  have dm: "den32 f \<noteq> INT_MIN" using f(3) by (auto simp add: sint_INT_MIN)
  have g1: "gcd32 c (std_abs (num32 f)) (std_abs (den32 f)) = 1"
    using f(2,4) dm by (simp add: gcd32_abs_eq_one_iff)
  have g2: "gcd \<bar>sint (num32 f)\<bar> \<bar>sint (den32 f)\<bar> = 1"
    using f(4) by (simp add: coprime_iff_gcd_eq_1)
  have pos: "0 <s den32 f" using f(3) by (simp add: word_sless_alt)
  have U: "\<forall>p q. sint p * sint d = sint n * sint q \<and>
                  gcd \<bar>sint p\<bar> \<bar>sint q\<bar> = 1 \<and> 0 <s q \<longrightarrow>
              p = num32 f \<and> q = den32 f"
    by (intro allI impI) (rule uniq)
  have c: "fraction_ctor32 c n d = Inr f"
    using f(1) by (simp add: fraction_ctor32_def)
  have "\<exists>f. fraction_ctor32 c n d = Inr f \<and>
           real_of_int (sint (num32 f)) / real_of_int (sint (den32 f)) =
             real_of_int (sint n) / real_of_int (sint d) \<and>
           gcd32 c (std_abs (num32 f)) (std_abs (den32 f)) = 1 \<and>
           gcd \<bar>sint (num32 f)\<bar> \<bar>sint (den32 f)\<bar> = 1 \<and> 0 <s den32 f \<and>
           (\<forall>p q. sint p * sint d = sint n * sint q \<and>
                  gcd \<bar>sint p\<bar> \<bar>sint q\<bar> = 1 \<and> 0 <s q \<longrightarrow>
              p = num32 f \<and> q = den32 f)"
    by (rule exI [of _ f]) (intro conjI c val g1 g2 pos U)
  moreover have "fraction_ctor32 c 15 63 = Inr \<lparr>num32 = 5, den32 = 21\<rparr>"
  proof -
    have "num32 \<lparr>num32 = 15, den32 = 63\<rparr> \<noteq> INT_MIN" "den32 \<lparr>num32 = 15, den32 = 63\<rparr> \<noteq> INT_MIN"
      "num32 \<lparr>num32 = 15, den32 = 63\<rparr> \<noteq> 0 \<or> den32 \<lparr>num32 = 15, den32 = 63\<rparr> \<noteq> 0"
      by (simp_all add: INT_MIN_def)
    from normalize32_exact [OF this, of c]
    obtain g where g: "normalize32 c \<lparr>num32 = 15, den32 = 63\<rparr> = Inr g"
      "fraction_normalize \<lparr>num = sint (15 :: int32), den = sint (63 :: int32)\<rparr> =
        Inr \<lparr>num = sint (num32 g), den = sint (den32 g)\<rparr>"
      by auto
    have "fraction_normalize \<lparr>num = 15, den = 63\<rparr> = Inr \<lparr>num = 5, den = 21\<rparr>"
      by code_simp
    with g(2) have "sint (num32 g) = sint (5 :: int32)" "sint (den32 g) = sint (21 :: int32)"
      by simp_all
    then have "g = \<lparr>num32 = 5, den32 = 21\<rparr>"
      by (cases g) (simp add: word32_eq_iff_sint)
    with g(1) show ?thesis by (simp add: fraction_ctor32_def)
  qed
  moreover have "fraction_ctor32 c 4 (- 6) = Inr \<lparr>num32 = - 2, den32 = 3\<rparr>"
  proof -
    have "num32 \<lparr>num32 = 4, den32 = - 6\<rparr> \<noteq> INT_MIN" "den32 \<lparr>num32 = 4, den32 = - 6\<rparr> \<noteq> INT_MIN"
      "num32 \<lparr>num32 = 4, den32 = - 6\<rparr> \<noteq> 0 \<or> den32 \<lparr>num32 = 4, den32 = - 6\<rparr> \<noteq> 0"
      by (simp_all add: INT_MIN_def)
    from normalize32_exact [OF this, of c]
    obtain g where g: "normalize32 c \<lparr>num32 = 4, den32 = - 6\<rparr> = Inr g"
      "fraction_normalize \<lparr>num = sint (4 :: int32), den = sint (- 6 :: int32)\<rparr> =
        Inr \<lparr>num = sint (num32 g), den = sint (den32 g)\<rparr>"
      by auto
    have "fraction_normalize \<lparr>num = 4, den = - 6\<rparr> = Inr \<lparr>num = - 2, den = 3\<rparr>"
      by code_simp
    with g(2) have "sint (num32 g) = sint (- 2 :: int32)" "sint (den32 g) = sint (3 :: int32)"
      by simp_all
    then have "g = \<lparr>num32 = - 2, den32 = 3\<rparr>"
      by (cases g) (simp add: word32_eq_iff_sint)
    with g(1) show ?thesis by (simp add: fraction_ctor32_def)
  qed
  ultimately show ?thesis by (intro conjI)
qed

theorem fraction_ctor32_canonical_witness:
  "(- 6 :: int32) \<noteq> 0 \<and> (4 :: int32) \<noteq> INT_MIN \<and> (- 6 :: int32) \<noteq> INT_MIN \<and>
   (\<exists>f. fraction_ctor32 201402 4 (- 6) = Inr f \<and>
      real_of_int (sint (num32 f)) / real_of_int (sint (den32 f)) =
        real_of_int (sint (4 :: int32)) / real_of_int (sint (- 6 :: int32)) \<and>
      gcd32 201402 (std_abs (num32 f)) (std_abs (den32 f)) = 1 \<and> 0 <s den32 f)"
proof -
  have h: "(- 6 :: int32) \<noteq> 0" "(4 :: int32) \<noteq> INT_MIN" "(- 6 :: int32) \<noteq> INT_MIN"
    by (simp_all add: INT_MIN_def)
  from fraction_ctor32_canonical [OF h, of 201402] h show ?thesis by blast
qed

subsection \<open>C4: normalizing a pair with a zero denominator\<close>

text \<open>
  C4, as stated: for every pair \<open>(n, 0)\<close>, after normalization the denominator is
  still 0, the numerator has kept its sign and its magnitude, and the value is illegal.
  The header divides the numerator by \<open>g = gcd(|n|, 0) = |n|\<close>, so the magnitude is
  not kept: \<open>(5, 0)\<close> becomes \<open>(1, 0)\<close>.
\<close>

theorem normalize32_zero_den_counterexample:
  "normalize32 201402 \<lparr>num32 = 5, den32 = 0\<rparr> = Inr \<lparr>num32 = 1, den32 = 0\<rparr> \<and>
   normalize32 201703 \<lparr>num32 = 5, den32 = 0\<rparr> = Inr \<lparr>num32 = 1, den32 = 0\<rparr> \<and>
   num32 \<lparr>num32 = 1, den32 = 0\<rparr> \<noteq> 5"
proof -
  have "num32 \<lparr>num32 = 5, den32 = 0\<rparr> \<noteq> INT_MIN" "den32 \<lparr>num32 = 5, den32 = 0\<rparr> = 0"
    "num32 \<lparr>num32 = 5, den32 = 0\<rparr> \<noteq> 0"
    by (simp_all add: INT_MIN_def)
  from normalize32_illegal [OF this]
  have "normalize32 c \<lparr>num32 = 5, den32 = 0\<rparr> = Inr \<lparr>num32 = 1, den32 = 0\<rparr>" for c
    by (simp add: word_sless_alt)
  then show ?thesis by simp
qed

text \<open>
  C4, amended: for every pair \<open>(n, 0)\<close> in which \<open>n\<close> is neither 0 nor the minimum value
  of the integer type, after normalization the denominator is still 0, the numerator
  is the sign of \<open>n\<close> (\<open>1\<close> or \<open>-1\<close>: the sign is kept, the magnitude is reduced to 1),
  and the value is illegal. (At the minimum value \<^verbatim>\<open>std::abs\<close> wraps around and the sign
  is lost: lemma \<open>normalize32_INT_MIN_zero\<close>.)
\<close>

theorem normalize32_zero_den:
  assumes "n \<noteq> 0" "n \<noteq> INT_MIN"
  shows "normalize32 c \<lparr>num32 = n, den32 = 0\<rparr> =
      Inr \<lparr>num32 = (if 0 <s n then 1 else - 1), den32 = 0\<rparr> \<and>
    sint (if 0 <s n then 1 else - 1 :: int32) = sgn (sint n) \<and>
    \<not> is_legal32 \<lparr>num32 = (if 0 <s n then 1 else - 1), den32 = 0\<rparr>"
proof -
  have "num32 \<lparr>num32 = n, den32 = 0\<rparr> \<noteq> INT_MIN" "den32 \<lparr>num32 = n, den32 = 0\<rparr> = 0"
    "num32 \<lparr>num32 = n, den32 = 0\<rparr> \<noteq> 0"
    using assms by simp_all
  from normalize32_illegal [OF this, of c]
  have "normalize32 c \<lparr>num32 = n, den32 = 0\<rparr> =
      Inr \<lparr>num32 = (if 0 <s n then 1 else - 1), den32 = 0\<rparr>"
    by simp
  moreover have "sint (if 0 <s n then 1 else - 1 :: int32) = sgn (sint n)"
    using assms(1) by (auto simp add: word_sless_alt sgn_if signed_eq_0_iff)
  ultimately show ?thesis by (simp add: is_legal32_def)
qed

theorem normalize32_zero_den_witness:
  "(- 7 :: int32) \<noteq> 0 \<and> (- 7 :: int32) \<noteq> INT_MIN \<and>
   normalize32 201402 \<lparr>num32 = - 7, den32 = 0\<rparr> = Inr \<lparr>num32 = - 1, den32 = 0\<rparr> \<and>
   \<not> is_legal32 \<lparr>num32 = - 1, den32 = 0\<rparr>"
proof -
  have h: "(- 7 :: int32) \<noteq> 0" "(- 7 :: int32) \<noteq> INT_MIN"
    by (simp_all add: INT_MIN_def)
  have "\<not> 0 <s (- 7 :: int32)"
    by (simp add: word_sless_alt)
  with normalize32_zero_den [OF h, of 201402] h show ?thesis
    by simp
qed

subsection \<open>C5: no division by zero while normalizing a zero denominator\<close>

text \<open>
  C5. The claim is that normalizing \<open>(n, 0)\<close> never divides by zero, also for
  \<open>(0, 0)\<close>. At \<open>(0, 0)\<close> the header computes \<open>g = gcd(0, 0) = 0\<close> and then evaluates
  \<^verbatim>\<open>num_ / g\<close>: a division by zero. The theorem evaluates the code there.
\<close>

theorem normalize_zero_zero_divides_by_zero:
  "gcd_cpp \<bar>0\<bar> \<bar>0\<bar> = 0 \<and> cpp_div 0 (gcd_cpp \<bar>0\<bar> \<bar>0\<bar>) = Inl DivisionByZero \<and>
   fraction_normalize \<lparr>num = 0, den = 0\<rparr> = Inl DivisionByZero \<and>
   fraction_ctor 0 0 = Inl DivisionByZero"
  by (simp add: fraction_ctor_def fraction_normalize_zero_zero gcd_cpp_0 cpp_div_def)

subsection \<open>C6: dividing by a rational whose numerator is zero\<close>

text \<open>
  Where the dividend's numerator is not zero the quotient is the illegal value
  \<open>(\<plusminus>1, 0)\<close>, as for \<open>(3, 4) / (0, 1)\<close>.
\<close>

lemma divide_by_zero_numerator:
  assumes "num a \<noteq> 0" "den b \<noteq> 0" "num b = 0"
  shows "operator_divide a b = Inr \<lparr>num = sgn (num a * den b), den = 0\<rparr>"
  using assms
  by (simp add: operator_divide_def operator_divide_assign_def fraction_normalize2_def
      fraction_normalize_illegal)

lemma divide_three_quarters_by_zero:
  "operator_divide \<lparr>num = 3, den = 4\<rparr> \<lparr>num = 0, den = 1\<rparr> = Inr \<lparr>num = 1, den = 0\<rparr>"
  by code_simp

text \<open>
  C6. The claim is that dividing any legal \<open>a\<close> by a rational with numerator zero
  returns an illegal value and does not fail. For the legal dividend \<open>(0, 1)\<close> the raw
  pair is \<open>(0, 0)\<close>, and normalizing it divides by zero: the operation fails instead of
  returning a value. The theorem evaluates the code there, for both forms of the
  right operand.
\<close>

theorem divide_zero_by_zero_fails:
  "fraction_ctor 0 1 = Inr \<lparr>num = 0, den = 1\<rparr> \<and> is_legal \<lparr>num = 0, den = 1\<rparr> \<and>
   operator_divide \<lparr>num = 0, den = 1\<rparr> \<lparr>num = 0, den = 1\<rparr> = Inl DivisionByZero \<and>
   operator_divide_value \<lparr>num = 0, den = 1\<rparr> 0 = Inl DivisionByZero"
  by (simp add: fraction_ctor_def fraction_normalize_nonzero is_legal_def
      operator_divide_def operator_divide_assign_def operator_divide_value_def
      operator_divide_assign_value_def fraction_of_value_eq
      fraction_normalize2_def fraction_normalize_zero_zero)

subsection \<open>C7: order and equality\<close>

text \<open>
  C7, as stated: for every two legal values exactly one of \<open>a < b\<close>, \<open>a == b\<close>,
  \<open>a > b\<close> holds. In \<^verbatim>\<open>fraction<int>\<close> the cross products of the canonical legal
  values \<open>(65536, 3)\<close> and \<open>(65536, 65539)\<close> are both \<open>196608\<close>, the second one after
  wrap-around, so none of the three holds.
\<close>

theorem order_trichotomy32_counterexample:
  "produced32 201402 \<lparr>num32 = 65536, den32 = 3\<rparr> \<lparr>num32 = 65536, den32 = 3\<rparr> \<and>
   is_legal32 \<lparr>num32 = 65536, den32 = 3\<rparr> \<and>
   produced32 201402 \<lparr>num32 = 65536, den32 = 65539\<rparr> \<lparr>num32 = 65536, den32 = 65539\<rparr> \<and>
   is_legal32 \<lparr>num32 = 65536, den32 = 65539\<rparr> \<and>
   \<not> operator_lt32 \<lparr>num32 = 65536, den32 = 3\<rparr> \<lparr>num32 = 65536, den32 = 65539\<rparr> \<and>
   \<not> operator_eq32 \<lparr>num32 = 65536, den32 = 3\<rparr> \<lparr>num32 = 65536, den32 = 65539\<rparr> \<and>
   \<not> operator_gt32 \<lparr>num32 = 65536, den32 = 3\<rparr> \<lparr>num32 = 65536, den32 = 65539\<rparr>"
proof -
  have "fraction_normalize \<lparr>num = 65536, den = 3\<rparr> = Inr \<lparr>num = 65536, den = 3\<rparr>"
    by code_simp
  from normalize32_eval [OF _ _ this, of 201402]
  have "fraction_ctor32 201402 65536 3 = Inr \<lparr>num32 = 65536, den32 = 3\<rparr>"
    by (simp add: fraction_ctor32_def int32_abs_range_def)
  then have 1: "produced32 201402 \<lparr>num32 = 65536, den32 = 3\<rparr> \<lparr>num32 = 65536, den32 = 3\<rparr>"
    by (rule by_ctor32)
  have "fraction_normalize \<lparr>num = 65536, den = 65539\<rparr> = Inr \<lparr>num = 65536, den = 65539\<rparr>"
    by code_simp
  from normalize32_eval [OF _ _ this, of 201402]
  have "fraction_ctor32 201402 65536 65539 = Inr \<lparr>num32 = 65536, den32 = 65539\<rparr>"
    by (simp add: fraction_ctor32_def int32_abs_range_def)
  then have 2: "produced32 201402 \<lparr>num32 = 65536, den32 = 65539\<rparr>
      \<lparr>num32 = 65536, den32 = 65539\<rparr>"
    by (rule by_ctor32)
  have 3: "is_legal32 \<lparr>num32 = 65536, den32 = 3\<rparr>" "is_legal32 \<lparr>num32 = 65536, den32 = 65539\<rparr>"
    by (simp_all add: is_legal32_def)
  have 4: "\<not> operator_lt32 \<lparr>num32 = 65536, den32 = 3\<rparr> \<lparr>num32 = 65536, den32 = 65539\<rparr>"
    "\<not> operator_eq32 \<lparr>num32 = 65536, den32 = 3\<rparr> \<lparr>num32 = 65536, den32 = 65539\<rparr>"
    "\<not> operator_gt32 \<lparr>num32 = 65536, den32 = 3\<rparr> \<lparr>num32 = 65536, den32 = 65539\<rparr>"
    by (simp_all add: operator_lt32_def operator_eq32_def operator_gt32_def word_sless_alt)
  from 1 2 3 4 show ?thesis by (intro conjI)
qed

text \<open>
  C7, amended: for every two legal values \<open>a = (n\<^sub>1, d\<^sub>1)\<close> and \<open>b = (n\<^sub>2, d\<^sub>2)\<close>, each
  produced from a raw pair without the minimum value of the integer type, whose cross
  products \<open>n\<^sub>1 d\<^sub>2\<close> and \<open>n\<^sub>2 d\<^sub>1\<close> are representable in the integer type, exactly one of
  \<open>a < b\<close>, \<open>a == b\<close>, \<open>a > b\<close> holds, where \<open>a < b\<close> is \<open>n\<^sub>1 d\<^sub>2 < n\<^sub>2 d\<^sub>1\<close> and
  equality compares the two components.
\<close>

theorem order_trichotomy32:
  assumes "produced32 c ra a" "num32 ra \<noteq> INT_MIN" "den32 ra \<noteq> INT_MIN" "is_legal32 a"
    and "produced32 c rb b" "num32 rb \<noteq> INT_MIN" "den32 rb \<noteq> INT_MIN" "is_legal32 b"
    and "int32_range (sint (num32 a) * sint (den32 b))"
    and "int32_range (sint (num32 b) * sint (den32 a))"
  shows "((operator_lt32 a b \<and> \<not> operator_eq32 a b \<and> \<not> operator_gt32 a b) \<or>
          (\<not> operator_lt32 a b \<and> operator_eq32 a b \<and> \<not> operator_gt32 a b) \<or>
          (\<not> operator_lt32 a b \<and> \<not> operator_eq32 a b \<and> operator_gt32 a b)) \<and>
         (operator_lt32 a b \<longleftrightarrow>
            sint (num32 a) * sint (den32 b) < sint (num32 b) * sint (den32 a)) \<and>
         (operator_gt32 a b \<longleftrightarrow>
            sint (num32 b) * sint (den32 a) < sint (num32 a) * sint (den32 b)) \<and>
         (operator_eq32 a b \<longleftrightarrow> num32 a = num32 b \<and> den32 a = den32 b)"
proof -
  let ?l = "sint (num32 a) * sint (den32 b)" and ?r = "sint (num32 b) * sint (den32 a)"
  have l: "sint (num32 a * den32 b) = ?l" using assms(9) by (rule sint_mult32)
  have r: "sint (num32 b * den32 a) = ?r" using assms(10) by (rule sint_mult32)
  have lt: "operator_lt32 a b \<longleftrightarrow> ?l < ?r"
    by (simp add: operator_lt32_def word_sless_alt l r)
  have gt: "operator_gt32 a b \<longleftrightarrow> ?r < ?l"
    by (simp add: operator_gt32_def word_sless_alt l r)
  have eq: "operator_eq32 a b \<longleftrightarrow> ?l = ?r"
  proof
    assume "operator_eq32 a b"
    then show "?l = ?r" by (simp add: operator_eq32_def)
  next
    assume "?l = ?r"
    with assms(1-8) have "a = b" by (rule produced32_legal_eq)
    then show "operator_eq32 a b" by (simp add: operator_eq32_def)
  qed
  consider "?l < ?r" | "?l = ?r" | "?r < ?l"
    by linarith
  then have "(operator_lt32 a b \<and> \<not> operator_eq32 a b \<and> \<not> operator_gt32 a b) \<or>
          (\<not> operator_lt32 a b \<and> operator_eq32 a b \<and> \<not> operator_gt32 a b) \<or>
          (\<not> operator_lt32 a b \<and> \<not> operator_eq32 a b \<and> operator_gt32 a b)"
    by cases (simp_all add: lt gt eq)
  with lt gt show ?thesis
    by (simp add: operator_eq32_def)
qed

theorem order_trichotomy32_witness:
  "produced32 201402 \<lparr>num32 = 2, den32 = 6\<rparr> \<lparr>num32 = 1, den32 = 3\<rparr> \<and>
   num32 \<lparr>num32 = 2, den32 = 6\<rparr> \<noteq> INT_MIN \<and> den32 \<lparr>num32 = 2, den32 = 6\<rparr> \<noteq> INT_MIN \<and>
   is_legal32 \<lparr>num32 = 1, den32 = 3\<rparr> \<and>
   produced32 201402 \<lparr>num32 = - 1, den32 = - 2\<rparr> \<lparr>num32 = 1, den32 = 2\<rparr> \<and>
   num32 \<lparr>num32 = - 1, den32 = - 2\<rparr> \<noteq> INT_MIN \<and>
   den32 \<lparr>num32 = - 1, den32 = - 2\<rparr> \<noteq> INT_MIN \<and>
   is_legal32 \<lparr>num32 = 1, den32 = 2\<rparr> \<and>
   int32_range (sint (num32 \<lparr>num32 = 1, den32 = 3\<rparr>) * sint (den32 \<lparr>num32 = 1, den32 = 2\<rparr>)) \<and>
   int32_range (sint (num32 \<lparr>num32 = 1, den32 = 2\<rparr>) * sint (den32 \<lparr>num32 = 1, den32 = 3\<rparr>)) \<and>
   operator_lt32 \<lparr>num32 = 1, den32 = 3\<rparr> \<lparr>num32 = 1, den32 = 2\<rparr> \<and>
   \<not> operator_eq32 \<lparr>num32 = 1, den32 = 3\<rparr> \<lparr>num32 = 1, den32 = 2\<rparr> \<and>
   \<not> operator_gt32 \<lparr>num32 = 1, den32 = 3\<rparr> \<lparr>num32 = 1, den32 = 2\<rparr>"
proof -
  have "fraction_normalize \<lparr>num = 2, den = 6\<rparr> = Inr \<lparr>num = 1, den = 3\<rparr>"
    by code_simp
  from normalize32_eval [OF _ _ this, of 201402]
  have "fraction_ctor32 201402 2 6 = Inr \<lparr>num32 = 1, den32 = 3\<rparr>"
    by (simp add: fraction_ctor32_def int32_abs_range_def)
  then have pa: "produced32 201402 \<lparr>num32 = 2, den32 = 6\<rparr> \<lparr>num32 = 1, den32 = 3\<rparr>"
    by (rule by_ctor32)
  have "fraction_normalize \<lparr>num = - 1, den = - 2\<rparr> = Inr \<lparr>num = 1, den = 2\<rparr>"
    by code_simp
  from normalize32_eval [OF _ _ this, of 201402]
  have "fraction_ctor32 201402 (- 1) (- 2) = Inr \<lparr>num32 = 1, den32 = 2\<rparr>"
    by (simp add: fraction_ctor32_def int32_abs_range_def)
  then have pb: "produced32 201402 \<lparr>num32 = - 1, den32 = - 2\<rparr> \<lparr>num32 = 1, den32 = 2\<rparr>"
    by (rule by_ctor32)
  have ma: "num32 \<lparr>num32 = 2, den32 = 6\<rparr> \<noteq> INT_MIN" "den32 \<lparr>num32 = 2, den32 = 6\<rparr> \<noteq> INT_MIN"
    and mb: "num32 \<lparr>num32 = - 1, den32 = - 2\<rparr> \<noteq> INT_MIN"
      "den32 \<lparr>num32 = - 1, den32 = - 2\<rparr> \<noteq> INT_MIN"
    by (simp_all add: INT_MIN_def)
  have la: "is_legal32 \<lparr>num32 = 1, den32 = 3\<rparr>" and lb: "is_legal32 \<lparr>num32 = 1, den32 = 2\<rparr>"
    by (simp_all add: is_legal32_def)
  have r1: "int32_range
      (sint (num32 \<lparr>num32 = 1, den32 = 3\<rparr>) * sint (den32 \<lparr>num32 = 1, den32 = 2\<rparr>))"
    and r2: "int32_range
      (sint (num32 \<lparr>num32 = 1, den32 = 2\<rparr>) * sint (den32 \<lparr>num32 = 1, den32 = 3\<rparr>))"
    by (simp_all add: int32_range_def)
  have lt: "operator_lt32 \<lparr>num32 = 1, den32 = 3\<rparr> \<lparr>num32 = 1, den32 = 2\<rparr>"
    by (simp add: operator_lt32_def word_sless_alt)
  from order_trichotomy32 [OF pa ma la pb mb lb r1 r2] lt
  have "\<not> operator_eq32 \<lparr>num32 = 1, den32 = 3\<rparr> \<lparr>num32 = 1, den32 = 2\<rparr>"
    "\<not> operator_gt32 \<lparr>num32 = 1, den32 = 3\<rparr> \<lparr>num32 = 1, den32 = 2\<rparr>"
    by blast+
  with pa ma la pb mb lb r1 r2 lt show ?thesis
    by (intro conjI)
qed

subsection \<open>C8: division followed by multiplication\<close>

text \<open>
  C8, as stated: for every legal \<open>a\<close> and every legal \<open>b\<close> with a non-zero numerator,
  \<open>(a / b) * b == a\<close>. In \<^verbatim>\<open>fraction<int>\<close>, \<open>(100000, 1) / (1, 100000)\<close> is
  \<open>(1410065408, 1)\<close>, the raw numerator \<open>10\<^sup>1\<^sup>0\<close> having wrapped around, and multiplying
  it by \<open>(1, 100000)\<close> gives \<open>(44064544, 3125)\<close>, not \<open>(100000, 1)\<close>.
\<close>

theorem divide_then_times32_counterexample:
  "produced32 201402 \<lparr>num32 = 100000, den32 = 1\<rparr> \<lparr>num32 = 100000, den32 = 1\<rparr> \<and>
   is_legal32 \<lparr>num32 = 100000, den32 = 1\<rparr> \<and>
   produced32 201402 \<lparr>num32 = 1, den32 = 100000\<rparr> \<lparr>num32 = 1, den32 = 100000\<rparr> \<and>
   is_legal32 \<lparr>num32 = 1, den32 = 100000\<rparr> \<and>
   num32 \<lparr>num32 = 1, den32 = 100000\<rparr> \<noteq> 0 \<and>
   operator_divide32 201402 \<lparr>num32 = 100000, den32 = 1\<rparr> \<lparr>num32 = 1, den32 = 100000\<rparr> =
     Inr \<lparr>num32 = 1410065408, den32 = 1\<rparr> \<and>
   operator_times32 201402 \<lparr>num32 = 1410065408, den32 = 1\<rparr> \<lparr>num32 = 1, den32 = 100000\<rparr> =
     Inr \<lparr>num32 = 44064544, den32 = 3125\<rparr> \<and>
   \<not> operator_eq32 \<lparr>num32 = 44064544, den32 = 3125\<rparr> \<lparr>num32 = 100000, den32 = 1\<rparr>"
proof -
  have "fraction_normalize \<lparr>num = 100000, den = 1\<rparr> = Inr \<lparr>num = 100000, den = 1\<rparr>"
    by code_simp
  from normalize32_eval [OF _ _ this, of 201402]
  have "fraction_ctor32 201402 100000 1 = Inr \<lparr>num32 = 100000, den32 = 1\<rparr>"
    by (simp add: fraction_ctor32_def int32_abs_range_def)
  then have 1: "produced32 201402 \<lparr>num32 = 100000, den32 = 1\<rparr> \<lparr>num32 = 100000, den32 = 1\<rparr>"
    by (rule by_ctor32)
  have "fraction_normalize \<lparr>num = 1, den = 100000\<rparr> = Inr \<lparr>num = 1, den = 100000\<rparr>"
    by code_simp
  from normalize32_eval [OF _ _ this, of 201402]
  have "fraction_ctor32 201402 1 100000 = Inr \<lparr>num32 = 1, den32 = 100000\<rparr>"
    by (simp add: fraction_ctor32_def int32_abs_range_def)
  then have 2: "produced32 201402 \<lparr>num32 = 1, den32 = 100000\<rparr> \<lparr>num32 = 1, den32 = 100000\<rparr>"
    by (rule by_ctor32)
  have 3: "is_legal32 \<lparr>num32 = 100000, den32 = 1\<rparr>" "is_legal32 \<lparr>num32 = 1, den32 = 100000\<rparr>"
    "num32 \<lparr>num32 = 1, den32 = 100000\<rparr> \<noteq> 0"
    by (simp_all add: is_legal32_def)
  have "fraction_normalize \<lparr>num = 1410065408, den = 1\<rparr> = Inr \<lparr>num = 1410065408, den = 1\<rparr>"
    by code_simp
  from normalize32_eval [OF _ _ this, of 201402]
  have n: "normalize32 201402 \<lparr>num32 = 1410065408, den32 = 1\<rparr> =
      Inr \<lparr>num32 = 1410065408, den32 = 1\<rparr>"
    by (simp add: int32_abs_range_def)
  have w: "(10000000000 :: int32) = 1410065408"
    by simp
  have 4: "operator_divide32 201402 \<lparr>num32 = 100000, den32 = 1\<rparr> \<lparr>num32 = 1, den32 = 100000\<rparr> =
     Inr \<lparr>num32 = 1410065408, den32 = 1\<rparr>"
    by (simp add: operator_divide32_def operator_divide_assign32_def normalize32_2_def
        w n)
  have "fraction_normalize \<lparr>num = 1410065408, den = 100000\<rparr> =
      Inr \<lparr>num = 44064544, den = 3125\<rparr>"
    by code_simp
  from normalize32_eval [OF _ _ this, of 201402]
  have 5: "operator_times32 201402 \<lparr>num32 = 1410065408, den32 = 1\<rparr>
      \<lparr>num32 = 1, den32 = 100000\<rparr> = Inr \<lparr>num32 = 44064544, den32 = 3125\<rparr>"
    by (simp add: operator_times32_def operator_times_assign32_def normalize32_2_def
        int32_abs_range_def)
  have 6: "\<not> operator_eq32 \<lparr>num32 = 44064544, den32 = 3125\<rparr> \<lparr>num32 = 100000, den32 = 1\<rparr>"
    by (simp add: operator_eq32_def)
  from 1 2 3 4 5 6 show ?thesis by (intro conjI)
qed

text \<open>
  C8, amended: for every legal \<open>a = (n\<^sub>1, d\<^sub>1)\<close> and every legal \<open>b = (n\<^sub>2, d\<^sub>2)\<close> with
  \<open>n\<^sub>2 \<noteq> 0\<close>, each produced from a raw pair without the minimum value of the integer
  type, if the products that the two operations form (\<open>n\<^sub>1 d\<^sub>2\<close> and \<open>d\<^sub>1 n\<^sub>2\<close> for the
  division, then the numerator of \<open>a / b\<close> times \<open>n\<^sub>2\<close> and its denominator times \<open>d\<^sub>2\<close>
  for the multiplication) are representable in the integer type and are not its
  minimum value, then both operations return a value and \<open>(a / b) * b == a\<close>.
\<close>

theorem divide_then_times32:
  assumes "produced32 c ra a" "num32 ra \<noteq> INT_MIN" "den32 ra \<noteq> INT_MIN" "is_legal32 a"
    and "produced32 c rb b" "num32 rb \<noteq> INT_MIN" "den32 rb \<noteq> INT_MIN" "is_legal32 b"
    and "num32 b \<noteq> 0"
    and "int32_abs_range (sint (num32 a) * sint (den32 b))"
    and "int32_abs_range (sint (den32 a) * sint (num32 b))"
    and "\<forall>q. operator_divide32 c a b = Inr q \<longrightarrow>
           int32_abs_range (sint (num32 q) * sint (num32 b)) \<and>
           int32_abs_range (sint (den32 q) * sint (den32 b))"
  shows "\<exists>q r. operator_divide32 c a b = Inr q \<and> operator_times32 c q b = Inr r \<and>
    operator_eq32 r a"
proof -
  note ia = produced32_legal_invariant [OF assms(1-4)]
  note ib = produced32_legal_invariant [OF assms(5-8)]
  let ?n1 = "sint (num32 a)" and ?d1 = "sint (den32 a)"
  let ?n2 = "sint (num32 b)" and ?d2 = "sint (den32 b)"
  have n2: "?n2 \<noteq> 0" using assms(9) by (simp add: signed_eq_0_iff)
  let ?r1 = "\<lparr>num32 = num32 a * den32 b, den32 = den32 a * num32 b\<rparr>"
  note mn = sint_mult32_abs [OF assms(10)]
  note md = sint_mult32_abs [OF assms(11)]
  have "sint (den32 ?r1) \<noteq> 0" using md(1) ia(1) n2 by simp
  then have z1: "den32 ?r1 \<noteq> 0" by auto
  have m1: "num32 ?r1 \<noteq> INT_MIN" "den32 ?r1 \<noteq> INT_MIN" using mn(2) md(2) by simp_all
  from normalize32_legal [OF m1 z1, of c]
  obtain q where q: "normalize32 c ?r1 = Inr q" "0 < sint (den32 q)"
    "sint (num32 q) * (?d1 * ?n2) = ?n1 * ?d2 * sint (den32 q)"
    by (auto simp add: mn(1) md(1))
  have dq: "operator_divide32 c a b = Inr q"
    using q(1) by (simp add: operator_divide32_def operator_divide_assign32_def
        normalize32_2_def fraction32_update_all)
  with assms(12) have rq: "int32_abs_range (sint (num32 q) * ?n2)"
    "int32_abs_range (sint (den32 q) * ?d2)"
    by blast+
  let ?r2 = "\<lparr>num32 = num32 q * num32 b, den32 = den32 q * den32 b\<rparr>"
  note mn2 = sint_mult32_abs [OF rq(1)]
  note md2 = sint_mult32_abs [OF rq(2)]
  have nz: "sint (den32 q) * ?d2 \<noteq> 0" using q(2) ib(1) by simp
  then have "sint (den32 ?r2) \<noteq> 0" using md2(1) by simp
  then have z2: "den32 ?r2 \<noteq> 0" by auto
  have m2: "num32 ?r2 \<noteq> INT_MIN" "den32 ?r2 \<noteq> INT_MIN" using mn2(2) md2(2) by simp_all
  from normalize32_legal [OF m2 z2, of c]
  obtain r where r: "normalize32 c ?r2 = Inr r" "0 < sint (den32 r)"
    "coprime (sint (num32 r)) (sint (den32 r))"
    "sint (num32 r) * (sint (den32 q) * ?d2) = sint (num32 q) * ?n2 * sint (den32 r)"
    by (auto simp add: mn2(1) md2(1))
  let ?nr = "sint (num32 r)" and ?dr = "sint (den32 r)"
  let ?nq = "sint (num32 q)" and ?dq = "sint (den32 q)"
  have "(?nr * ?d1) * (?dq * ?d2) = (?nr * (?dq * ?d2)) * ?d1"
    by (simp add: ac_simps)
  also have "\<dots> = (?nq * ?n2 * ?dr) * ?d1"
    using r(4) by simp
  also have "\<dots> = (?nq * (?d1 * ?n2)) * ?dr"
    by (simp add: ac_simps)
  also have "\<dots> = (?n1 * ?d2 * ?dq) * ?dr"
    using q(3) by simp
  also have "\<dots> = (?n1 * ?dr) * (?dq * ?d2)"
    by (simp add: ac_simps)
  finally have "?nr * ?d1 = ?n1 * ?dr"
    using nz by simp
  from canonical_unique [OF r(2) ia(1) r(3) ia(2) this]
  have "operator_eq32 r a"
    by (simp add: operator_eq32_def word32_eq_iff_sint)
  moreover have "operator_times32 c q b = Inr r"
    using r(1) by (simp add: operator_times32_def operator_times_assign32_def
        normalize32_2_def fraction32_update_all)
  ultimately show ?thesis using dq by blast
qed

theorem divide_then_times32_witness:
  "produced32 201402 \<lparr>num32 = 3, den32 = 4\<rparr> \<lparr>num32 = 3, den32 = 4\<rparr> \<and>
   num32 \<lparr>num32 = 3, den32 = 4\<rparr> \<noteq> INT_MIN \<and> den32 \<lparr>num32 = 3, den32 = 4\<rparr> \<noteq> INT_MIN \<and>
   is_legal32 \<lparr>num32 = 3, den32 = 4\<rparr> \<and>
   produced32 201402 \<lparr>num32 = 4, den32 = - 6\<rparr> \<lparr>num32 = - 2, den32 = 3\<rparr> \<and>
   num32 \<lparr>num32 = 4, den32 = - 6\<rparr> \<noteq> INT_MIN \<and>
   den32 \<lparr>num32 = 4, den32 = - 6\<rparr> \<noteq> INT_MIN \<and>
   is_legal32 \<lparr>num32 = - 2, den32 = 3\<rparr> \<and>
   num32 \<lparr>num32 = - 2, den32 = 3\<rparr> \<noteq> 0 \<and>
   operator_divide32 201402 \<lparr>num32 = 3, den32 = 4\<rparr> \<lparr>num32 = - 2, den32 = 3\<rparr> =
     Inr \<lparr>num32 = - 9, den32 = 8\<rparr> \<and>
   (\<exists>q r. operator_divide32 201402 \<lparr>num32 = 3, den32 = 4\<rparr> \<lparr>num32 = - 2, den32 = 3\<rparr> = Inr q \<and>
      operator_times32 201402 q \<lparr>num32 = - 2, den32 = 3\<rparr> = Inr r \<and>
      operator_eq32 r \<lparr>num32 = 3, den32 = 4\<rparr>)"
proof -
  have "fraction_normalize \<lparr>num = 3, den = 4\<rparr> = Inr \<lparr>num = 3, den = 4\<rparr>"
    by code_simp
  from normalize32_eval [OF _ _ this, of 201402]
  have "fraction_ctor32 201402 3 4 = Inr \<lparr>num32 = 3, den32 = 4\<rparr>"
    by (simp add: fraction_ctor32_def int32_abs_range_def)
  then have pa: "produced32 201402 \<lparr>num32 = 3, den32 = 4\<rparr> \<lparr>num32 = 3, den32 = 4\<rparr>"
    by (rule by_ctor32)
  have "fraction_normalize \<lparr>num = 4, den = - 6\<rparr> = Inr \<lparr>num = - 2, den = 3\<rparr>"
    by code_simp
  from normalize32_eval [OF _ _ this, of 201402]
  have "fraction_ctor32 201402 4 (- 6) = Inr \<lparr>num32 = - 2, den32 = 3\<rparr>"
    by (simp add: fraction_ctor32_def int32_abs_range_def)
  then have pb: "produced32 201402 \<lparr>num32 = 4, den32 = - 6\<rparr> \<lparr>num32 = - 2, den32 = 3\<rparr>"
    by (rule by_ctor32)
  have ma: "num32 \<lparr>num32 = 3, den32 = 4\<rparr> \<noteq> INT_MIN" "den32 \<lparr>num32 = 3, den32 = 4\<rparr> \<noteq> INT_MIN"
    and mb: "num32 \<lparr>num32 = 4, den32 = - 6\<rparr> \<noteq> INT_MIN"
      "den32 \<lparr>num32 = 4, den32 = - 6\<rparr> \<noteq> INT_MIN"
    by (simp_all add: INT_MIN_def)
  have la: "is_legal32 \<lparr>num32 = 3, den32 = 4\<rparr>" and lb: "is_legal32 \<lparr>num32 = - 2, den32 = 3\<rparr>"
    and nb: "num32 \<lparr>num32 = - 2, den32 = 3\<rparr> \<noteq> 0"
    by (simp_all add: is_legal32_def)
  have r1: "int32_abs_range
      (sint (num32 \<lparr>num32 = 3, den32 = 4\<rparr>) * sint (den32 \<lparr>num32 = - 2, den32 = 3\<rparr>))"
    and r2: "int32_abs_range
      (sint (den32 \<lparr>num32 = 3, den32 = 4\<rparr>) * sint (num32 \<lparr>num32 = - 2, den32 = 3\<rparr>))"
    by (simp_all add: int32_abs_range_def)
  have "fraction_normalize \<lparr>num = 9, den = - 8\<rparr> = Inr \<lparr>num = - 9, den = 8\<rparr>"
    by code_simp
  from normalize32_eval [OF _ _ this, of 201402]
  have dv: "operator_divide32 201402 \<lparr>num32 = 3, den32 = 4\<rparr> \<lparr>num32 = - 2, den32 = 3\<rparr> =
     Inr \<lparr>num32 = - 9, den32 = 8\<rparr>"
    by (simp add: operator_divide32_def operator_divide_assign32_def normalize32_2_def
        int32_abs_range_def)
  have r3: "\<forall>q. operator_divide32 201402 \<lparr>num32 = 3, den32 = 4\<rparr> \<lparr>num32 = - 2, den32 = 3\<rparr> =
        Inr q \<longrightarrow>
      int32_abs_range (sint (num32 q) * sint (num32 \<lparr>num32 = - 2, den32 = 3\<rparr>)) \<and>
      int32_abs_range (sint (den32 q) * sint (den32 \<lparr>num32 = - 2, den32 = 3\<rparr>))"
    unfolding dv by (auto simp add: int32_abs_range_def)
  from divide_then_times32 [OF pa ma la pb mb lb nb r1 r2 r3] pa ma la pb mb lb nb dv
  show ?thesis
    by (intro conjI)
qed

subsection \<open>C9: the two truth tests\<close>

text \<open>
  C9. \<^verbatim>\<open>operator!\<close> is true exactly when the numerator is not 0, the explicit
  conversion to \<^verbatim>\<open>bool\<close> is true exactly when the numerator is 0, and each is the
  negation of the other.
\<close>

theorem truthiness_polarities:
  "(operator_not f \<longleftrightarrow> num f \<noteq> 0) \<and> (operator_bool f \<longleftrightarrow> num f = 0) \<and>
   (operator_bool f \<longleftrightarrow> \<not> operator_not f)"
  by (simp add: operator_not_def operator_bool_def)

subsection \<open>C10: addition, subtraction and multiplication keep values legal\<close>

lemma fraction_normalize_keeps_legal:
  assumes "den r \<noteq> 0"
  shows "\<exists>f. fraction_normalize r = Inr f \<and> is_legal f"
  using fraction_normalize_legal [OF assms] by (auto simp add: is_legal_def)

text \<open>
  C10. For legal \<open>a\<close> and \<open>b\<close>, the raw denominator of \<open>a + b\<close>, \<open>a - b\<close> and
  \<open>a * b\<close> is the non-zero product \<open>d\<^sub>1 d\<^sub>2\<close>, normalization never turns a non-zero
  denominator into zero, and so the three operations return legal values (with a
  fraction or a bare integer on the right). Division is the one operation that
  returns an illegal value from legal operands: \<open>(3, 4) / (0, 1) = (1, 0)\<close>.
\<close>

theorem legal_closed_under_plus_minus_times:
  assumes "is_legal a" "is_legal b"
  shows "den (spec_raw_plus a b) = den a * den b \<and>
         den (spec_raw_minus a b) = den a * den b \<and>
         den (spec_raw_times a b) = den a * den b \<and>
         den a * den b \<noteq> 0 \<and>
         (\<exists>c. operator_plus_assign a b = Inr c \<and> is_legal c) \<and>
         (\<exists>c. operator_minus_assign a b = Inr c \<and> is_legal c) \<and>
         (\<exists>c. operator_times_assign a b = Inr c \<and> is_legal c) \<and>
         (\<exists>c. operator_plus a b = Inr c \<and> is_legal c) \<and>
         (\<exists>c. operator_minus a b = Inr c \<and> is_legal c) \<and>
         (\<exists>c. operator_times a b = Inr c \<and> is_legal c) \<and>
         (\<exists>c. operator_plus_value a v = Inr c \<and> is_legal c) \<and>
         (\<exists>c. operator_minus_value a v = Inr c \<and> is_legal c) \<and>
         (\<exists>c. operator_times_value a v = Inr c \<and> is_legal c) \<and>
         (\<forall>r. den r \<noteq> 0 \<longrightarrow> (\<exists>f. fraction_normalize r = Inr f \<and> is_legal f)) \<and>
         operator_divide \<lparr>num = 3, den = 4\<rparr> \<lparr>num = 0, den = 1\<rparr> = Inr \<lparr>num = 1, den = 0\<rparr>"
proof -
  from assms have nz: "den a * den b \<noteq> 0" by (simp add: is_legal_def)
  from assms have nzv: "den a * 1 \<noteq> 0" by (simp add: is_legal_def)
  have keep: "\<exists>f. fraction_normalize \<lparr>num = n, den = d\<rparr> = Inr f \<and> is_legal f"
    if "d \<noteq> 0" for n d
    using that by (intro fraction_normalize_keeps_legal) simp
  have pa: "\<exists>c. operator_plus_assign a b = Inr c \<and> is_legal c"
    unfolding operator_plus_assign_def fraction_normalize2_def fraction_update_all
    using nz by (rule keep)
  have ma: "\<exists>c. operator_minus_assign a b = Inr c \<and> is_legal c"
    unfolding operator_minus_assign_def fraction_normalize2_def fraction_update_all
    using nz by (rule keep)
  have ta: "\<exists>c. operator_times_assign a b = Inr c \<and> is_legal c"
    unfolding operator_times_assign_def fraction_normalize2_def fraction_update_all
    using nz by (rule keep)
  have pv: "\<exists>c. operator_plus_value a v = Inr c \<and> is_legal c"
    unfolding operator_defs fraction_of_value_eq sum.case fraction_normalize2_def
      fraction_update_all fraction.simps
    using nzv by (rule keep)
  have mv: "\<exists>c. operator_minus_value a v = Inr c \<and> is_legal c"
    unfolding operator_defs fraction_of_value_eq sum.case fraction_normalize2_def
      fraction_update_all fraction.simps
    using nzv by (rule keep)
  have tv: "\<exists>c. operator_times_value a v = Inr c \<and> is_legal c"
    unfolding operator_defs fraction_of_value_eq sum.case fraction_normalize2_def
      fraction_update_all fraction.simps
    using nzv by (rule keep)
  have all: "\<forall>r. den r \<noteq> 0 \<longrightarrow> (\<exists>f. fraction_normalize r = Inr f \<and> is_legal f)"
    using fraction_normalize_keeps_legal by blast
  have dz: "operator_divide \<lparr>num = 3, den = 4\<rparr> \<lparr>num = 0, den = 1\<rparr> = Inr \<lparr>num = 1, den = 0\<rparr>"
    by code_simp
  have raw: "den (spec_raw_plus a b) = den a * den b"
    "den (spec_raw_minus a b) = den a * den b" "den (spec_raw_times a b) = den a * den b"
    by (simp_all add: spec_raw_plus_def spec_raw_minus_def spec_raw_times_def)
  from pa ma ta have "\<exists>c. operator_plus a b = Inr c \<and> is_legal c"
    "\<exists>c. operator_minus a b = Inr c \<and> is_legal c"
    "\<exists>c. operator_times a b = Inr c \<and> is_legal c"
    by (simp_all add: operator_plus_def operator_minus_def operator_times_def)
  with raw nz pa ma ta pv mv tv all dz show ?thesis
    by blast
qed

theorem legal_closed_under_plus_minus_times_witness:
  "is_legal \<lparr>num = 5, den = 21\<rparr> \<and> is_legal \<lparr>num = 1, den = 2\<rparr> \<and>
   (\<exists>c. operator_plus \<lparr>num = 5, den = 21\<rparr> \<lparr>num = 1, den = 2\<rparr> = Inr c \<and> is_legal c) \<and>
   (\<exists>c. operator_minus \<lparr>num = 5, den = 21\<rparr> \<lparr>num = 1, den = 2\<rparr> = Inr c \<and> is_legal c) \<and>
   (\<exists>c. operator_times \<lparr>num = 5, den = 21\<rparr> \<lparr>num = 1, den = 2\<rparr> = Inr c \<and> is_legal c)"
proof -
  have la: "is_legal \<lparr>num = 5, den = 21\<rparr>" and lb: "is_legal \<lparr>num = 1, den = 2\<rparr>"
    by (simp_all add: is_legal_def)
  from legal_closed_under_plus_minus_times [OF la lb] la lb show ?thesis
    by blast
qed

end
